theory Spec2Isabelle
  imports Main
begin

section \<open>Session registry (src/services/sessionStorage.ts)\<close>

text \<open>
  A stored session, as the interface \<^verbatim>\<open>StoredSession\<close> declares it. The messages are
  \<^verbatim>\<open>any[]\<close> in the source and stay opaque here; \<^verbatim>\<open>timestamp\<close> is a reading of
  \<^verbatim>\<open>Date.now()\<close>, an integer number of milliseconds.
\<close>

record 'm StoredSession =
  sessionId :: string
  projectPath :: string
  messages :: "'m list"
  timestamp :: int

definition SESSION_EXPIRY_MS :: int where
  "SESSION_EXPIRY_MS = 24 * 60 * 60 * 1000"

text \<open>
  The text kept under the key \<^verbatim>\<open>claudia_active_sessions\<close> is represented by what
  \<^verbatim>\<open>getAllSessions\<close> can make of it: the empty string (falsy, so the function returns
  before parsing), a text on which \<^verbatim>\<open>JSON.parse\<close> or the loop over its keys throws, or
  the \<^verbatim>\<open>Record<string, StoredSession>\<close> it parses to. \<^verbatim>\<open>JSON.stringify\<close> followed by
  \<^verbatim>\<open>JSON.parse\<close> is the identity on such a record, so \<^verbatim>\<open>setItem\<close> stores the record.
\<close>

datatype 'm stored_text =
  EmptyText
  | Malformed
  | Json "string \<rightharpoonup> 'm StoredSession"

text \<open>
  The browser's \<^verbatim>\<open>localStorage\<close>, restricted to the one key the module uses.
  \<^verbatim>\<open>getItem\<close> yields \<^verbatim>\<open>null\<close> (\<open>None\<close>) when the key was never written;
  \<^verbatim>\<open>setItem\<close> throws when the storage refuses the write (quota exceeded, storage
  disabled), which the flag \<open>writable\<close> stands for.
\<close>

record 'm localStorage =
  stored :: "'m stored_text option"
  writable :: bool

datatype storage_error = QuotaExceededError

definition setItem :: "'m stored_text \<Rightarrow> 'm localStorage \<Rightarrow> storage_error + 'm localStorage" where
  "setItem v st = (if writable st then Inr (st\<lparr>stored := Some v\<rparr>) else Inl QuotaExceededError)"

definition removeItem :: "'m localStorage \<Rightarrow> 'm localStorage" where
  "removeItem st = st\<lparr>stored := None\<rparr>"

text \<open>
  Every function takes the readings of \<^verbatim>\<open>Date.now()\<close> it makes, in the order it makes
  them, and the storage; it returns its result and the storage it leaves behind.

  \<^verbatim>\<open>getAllSessions\<close> reads the stored text, deletes the expired entries from the parsed object
  and returns that object. It contains no call of \<^verbatim>\<open>setItem\<close>.
\<close>

definition getAllSessions ::
  "int \<Rightarrow> 'm localStorage \<Rightarrow> (string \<rightharpoonup> 'm StoredSession) \<times> 'm localStorage" where
  "getAllSessions now st =
     (case stored st of
        None \<Rightarrow> (Map.empty, st)
      | Some EmptyText \<Rightarrow> (Map.empty, st)
      | Some Malformed \<Rightarrow> (Map.empty, st)
      | Some (Json sessions) \<Rightarrow>
          ((\<lambda>id. case sessions id of
                    None \<Rightarrow> None
                  | Some s \<Rightarrow> if now - timestamp s > SESSION_EXPIRY_MS then None else Some s),
           st))"

text \<open>
  \<^verbatim>\<open>saveSession\<close>: the first reading is the one inside \<^verbatim>\<open>getAllSessions\<close>, the second
  the new entry's timestamp. A throwing \<^verbatim>\<open>setItem\<close> is caught and logged.
\<close>

definition saveSession ::
  "int \<Rightarrow> int \<Rightarrow> string \<Rightarrow> string \<Rightarrow> 'm list \<Rightarrow> 'm localStorage \<Rightarrow> 'm localStorage" where
  "saveSession t1 t2 sid path msgs st =
     (let (sessions, st1) = getAllSessions t1 st;
          sessions' = sessions(sid \<mapsto>
            \<lparr>sessionId = sid, projectPath = path, messages = msgs, timestamp = t2\<rparr>)
      in case setItem (Json sessions') st1 of
           Inl err \<Rightarrow> st1
         | Inr st2 \<Rightarrow> st2)"

definition removeSession :: "int \<Rightarrow> string \<Rightarrow> 'm localStorage \<Rightarrow> 'm localStorage" where
  "removeSession now sid st =
     (let (sessions, st1) = getAllSessions now st
      in case setItem (Json (sessions(sid := None))) st1 of
           Inl err \<Rightarrow> st1
         | Inr st2 \<Rightarrow> st2)"

text \<open>
  \<^verbatim>\<open>getSession\<close>: \<open>t1\<close> is read inside \<^verbatim>\<open>getAllSessions\<close>, \<open>t2\<close> by the expiry check
  of \<^verbatim>\<open>getSession\<close> itself, \<open>t3\<close> inside the \<^verbatim>\<open>removeSession\<close> it calls when that
  check fires.
\<close>

definition getSession ::
  "int \<Rightarrow> int \<Rightarrow> int \<Rightarrow> string \<Rightarrow> 'm localStorage \<Rightarrow> 'm StoredSession option \<times> 'm localStorage" where
  "getSession t1 t2 t3 sid st =
     (let (sessions, st1) = getAllSessions t1 st
      in case sessions sid of
           None \<Rightarrow> (None, st1)
         | Some session \<Rightarrow>
             if t2 - timestamp session > SESSION_EXPIRY_MS
             then (None, removeSession t3 sid st1)
             else (Some session, st1))"

definition clearAllSessions :: "'m localStorage \<Rightarrow> 'm localStorage" where
  "clearAllSessions st = removeItem st"

text \<open>What an independent read of the store finds: the entries of the persisted record.\<close>

definition persisted :: "'m localStorage \<Rightarrow> (string \<rightharpoonup> 'm StoredSession)" where
  "persisted st = (case stored st of Some (Json sessions) \<Rightarrow> sessions | _ \<Rightarrow> Map.empty)"

subsection \<open>Example stores\<close>

definition old_session :: "unit StoredSession" where
  "old_session = \<lparr>sessionId = ''old'', projectPath = ''/p'', messages = [], timestamp = 0\<rparr>"

definition fresh_session :: "unit StoredSession" where
  "fresh_session =
     \<lparr>sessionId = ''new'', projectPath = ''/q'', messages = [(), ()], timestamp = 86400000\<rparr>"

definition example_store :: "unit localStorage" where
  "example_store =
     \<lparr>stored = Some (Json [''old'' \<mapsto> old_session, ''new'' \<mapsto> fresh_session]), writable = True\<rparr>"

section \<open>Checkpoint timeline (src/components/TimelineNavigator.tsx)\<close>

subsection \<open>Message preview: \<^verbatim>\<open>extractMessageInfo\<close>\<close>

text \<open>
  The interface \<^verbatim>\<open>ClaudeStreamMessage\<close> is declared in \<^verbatim>\<open>./AgentExecution\<close>, which is
  not among the sources. The datatypes below have one constructor for each shape that
  \<^verbatim>\<open>extractMessageInfo\<close> tells apart:
  \<^item> \<^verbatim>\<open>item.text\<close> is absent (\<open>None\<close>), a string, or another truthy value, of which
    the function reads the property \<^verbatim>\<open>.text\<close> (a string, or absent);
  \<^item> a content item has \<^verbatim>\<open>type\<close> \<^verbatim>\<open>'text'\<close>, \<^verbatim>\<open>'tool_use'\<close> (with an optional
    \<^verbatim>\<open>name\<close>) or anything else;
  \<^item> \<^verbatim>\<open>message.message?.content\<close> is absent, an array of items or a string;
  \<^item> \<^verbatim>\<open>message.type\<close> is \<^verbatim>\<open>'assistant'\<close>, \<^verbatim>\<open>'user'\<close> or anything else.
  The field \<open>message_content\<close> is \<^verbatim>\<open>message.message?.content\<close>.
  Every element of \<^verbatim>\<open>messages\<close> and of a content array is an object, so reading
  \<^verbatim>\<open>.type\<close> of it does not throw, and \<^verbatim>\<open>messages\<close>, a required prop, is an array.
  A string is a list of code units.
\<close>

datatype text_field = TextString string | TextObject "string option"

datatype content_item =
  TextItem "text_field option"
  | ToolUseItem "string option"
  | OtherItem

datatype message_content = ContentArray "content_item list" | ContentString string

datatype message_type = Assistant | User | OtherType

record ClaudeStreamMessage =
  mtype :: message_type
  message_content :: "message_content option"

text \<open>
  The expression \<^verbatim>\<open>s.substring(0, 150) + (s.length > 150 ? '...' : '')\<close>, which the
  function writes out three times.
\<close>

definition substring150 :: "string \<Rightarrow> string" where
  "substring150 s = take 150 s @ (if length s > 150 then ''...'' else [])"

text \<open>\<^verbatim>\<open>message.message?.content\<close> as a condition: an array is truthy, a string when not empty.\<close>

fun content_truthy :: "message_content option \<Rightarrow> bool" where
  "content_truthy None = False"
| "content_truthy (Some (ContentArray items)) = True"
| "content_truthy (Some (ContentString s)) = (s \<noteq> [])"

text \<open>
  The value of \<^verbatim>\<open>textValue\<close> in the assistant branch: empty unless \<^verbatim>\<open>item.text\<close> is
  truthy, then the string itself or \<^verbatim>\<open>String(item.text.text || '')\<close>.
\<close>

fun textValue :: "text_field option \<Rightarrow> string" where
  "textValue None = []"
| "textValue (Some (TextString s)) = s"
| "textValue (Some (TextObject None)) = []"
| "textValue (Some (TextObject (Some s))) = s"

text \<open>
  The loop \<^verbatim>\<open>for (const item of message.message.content)\<close> of the assistant branch, on
  the pair of \<^verbatim>\<open>content\<close> and \<^verbatim>\<open>tools\<close> it updates.
\<close>

fun assistant_items :: "content_item list \<Rightarrow> string \<times> string list \<Rightarrow> string \<times> string list" where
  "assistant_items [] (content, tools) = (content, tools)"
| "assistant_items (TextItem text # items) (content, tools) =
     assistant_items items
       (if textValue text \<noteq> [] \<and> length content < 150
        then substring150 (textValue text) else content,
        tools)"
| "assistant_items (ToolUseItem name # items) (content, tools) =
     assistant_items items
       (content,
        case name of
          None \<Rightarrow> tools
        | Some n \<Rightarrow> if n \<noteq> [] then tools @ [n] else tools)"
| "assistant_items (OtherItem # items) (content, tools) = assistant_items items (content, tools)"

text \<open>
  The user branch: \<^verbatim>\<open>content.find(c => c.type === 'text')\<close>, then, when the item found
  has a truthy \<^verbatim>\<open>text\<close>, the preview of that string or of \<^verbatim>\<open>text.text || ''\<close>.
\<close>

fun find_text :: "content_item list \<Rightarrow> text_field option option" where
  "find_text [] = None"
| "find_text (TextItem text # items) = Some text"
| "find_text (item # items) = find_text items"

fun user_text :: "text_field option option \<Rightarrow> string" where
  "user_text None = []"
| "user_text (Some None) = []"
| "user_text (Some (Some (TextString s))) = (if s \<noteq> [] then substring150 s else [])"
| "user_text (Some (Some (TextObject None))) = substring150 []"
| "user_text (Some (Some (TextObject (Some s)))) = substring150 s"

definition extractMessageInfo :: "ClaudeStreamMessage list \<Rightarrow> int \<Rightarrow> string \<times> string list" where
  "extractMessageInfo msgs messageIndex =
     (if messageIndex < 0 \<or> messageIndex \<ge> int (length msgs) then ([], [])
      else
        let message = msgs ! nat messageIndex;
            (content, tools) =
              (if mtype message = Assistant \<and> content_truthy (message_content message) then
                 (case message_content message of
                    Some (ContentArray items) \<Rightarrow> assistant_items items ([], [])
                  | Some (ContentString contentStr) \<Rightarrow> (substring150 contentStr, [])
                  | None \<Rightarrow> ([], []))
               else if mtype message = User \<and> content_truthy (message_content message) then
                 (case message_content message of
                    Some (ContentArray items) \<Rightarrow> (user_text (find_text items), [])
                  | _ \<Rightarrow> ([], []))
               else ([], []))
        in (if content \<noteq> [] then content else ''No content'', tools))"

subsection \<open>File entries of a diff: \<^verbatim>\<open>extractFilePath\<close>\<close>

text \<open>
  The diff response's file objects are \<^verbatim>\<open>any\<close> in the source, which inspects them with
  \<^verbatim>\<open>typeof\<close>, property reads and \<^verbatim>\<open>||\<close>. They are modelled as JSON values (numbers
  as integers), with \<^verbatim>\<open>undefined\<close> for a property that is not there.
\<close>

datatype json =
  JUndefined
  | JNull
  | JBool bool
  | JNum int
  | JStr string
  | JArr "json list"
  | JObj "(string \<times> json) list"

fun truthy :: "json \<Rightarrow> bool" where
  "truthy JUndefined = False"
| "truthy JNull = False"
| "truthy (JBool b) = b"
| "truthy (JNum n) = (n \<noteq> 0)"
| "truthy (JStr s) = (s \<noteq> [])"
| "truthy (JArr xs) = True"
| "truthy (JObj kvs) = True"

text \<open>\<^verbatim>\<open>typeof v === 'object'\<close> holds of objects, arrays and \<^verbatim>\<open>null\<close>.\<close>

fun typeof_object :: "json \<Rightarrow> bool" where
  "typeof_object JNull = True"
| "typeof_object (JArr xs) = True"
| "typeof_object (JObj kvs) = True"
| "typeof_object v = False"

text \<open>
  Reading one of the properties \<^verbatim>\<open>path\<close>, \<^verbatim>\<open>file_path\<close>, \<^verbatim>\<open>name\<close>, \<^verbatim>\<open>size\<close>,
  \<^verbatim>\<open>file_size\<close>, \<^verbatim>\<open>total_size\<close>, \<^verbatim>\<open>old\<close>, \<^verbatim>\<open>new\<close> of a truthy value: an array,
  a string, a number or a boolean has none of them.
\<close>

fun property :: "json \<Rightarrow> string \<Rightarrow> json" where
  "property (JObj kvs) k = (case map_of kvs k of None \<Rightarrow> JUndefined | Some v \<Rightarrow> v)"
| "property v k = JUndefined"

definition js_or :: "json \<Rightarrow> json \<Rightarrow> json" where
  "js_or a b = (if truthy a then a else b)"

text \<open>
  An element of \<^verbatim>\<open>detailedFileChanges\<close>: \<^verbatim>\<open>{path, size}\<close> as \<^verbatim>\<open>extractFilePath\<close> makes
  it (\<^verbatim>\<open>size\<close> is \<^verbatim>\<open>undefined\<close> when not set), or \<^verbatim>\<open>{path, oldSize, newSize}\<close> for a
  modified pair.
\<close>

datatype file_change =
  FileChange json json
  | ModifiedChange json json json

fun extractFilePath :: "json \<Rightarrow> json \<times> json" where
  "extractFilePath (JStr fileObj) = (JStr fileObj, JUndefined)"
| "extractFilePath fileObj =
     (if truthy fileObj \<and> typeof_object fileObj then
        (js_or (js_or (js_or (property fileObj ''path'') (property fileObj ''file_path''))
                      (property fileObj ''name''))
               (JStr ''Unknown file''),
         js_or (js_or (property fileObj ''size'') (property fileObj ''file_size''))
               (property fileObj ''total_size''))
      else (JStr ''Unknown file'', JUndefined))"

definition extractAddedOrDeleted :: "json \<Rightarrow> file_change" where
  "extractAddedOrDeleted fileObj = (case extractFilePath fileObj of (p, s) \<Rightarrow> FileChange p s)"

definition extractModified :: "json \<Rightarrow> file_change" where
  "extractModified modPair =
     (if truthy modPair \<and> typeof_object modPair
         \<and> truthy (property modPair ''old'') \<and> truthy (property modPair ''new'')
      then
        (let oldFile = extractFilePath (property modPair ''old'');
             newFile = extractFilePath (property modPair ''new'')
         in ModifiedChange (fst newFile) (snd oldFile) (snd newFile))
      else extractAddedOrDeleted modPair)"

subsection \<open>Checkpoints, the checkpoint API and the component's state\<close>

text \<open>
  \<^verbatim>\<open>TitorCheckpointInfo\<close> is declared in \<^verbatim>\<open>../lib/api\<close>; these are the fields the
  component's logic reads. \<^verbatim>\<open>CheckpointWithUIState\<close> extends it as in the source.
\<close>

record TitorCheckpointInfo =
  checkpointId :: string
  messageIndex :: int
  fileCount :: int

record 'a changes =
  added :: 'a
  modified :: 'a
  deleted :: 'a

record CheckpointWithUIState = TitorCheckpointInfo +
  verified :: "bool option"
  messageContent :: "string option"
  toolsUsed :: "string list option"
  filesChanged :: "int changes option"
  detailedFileChanges :: "file_change list changes option"

record DiffResponse =
  addedFiles :: "json list"
  modifiedFiles :: "json list"
  deletedFiles :: "json list"

text \<open>
  The functions of \<^verbatim>\<open>../lib/api\<close> are external: each is a parameter, a function from
  its arguments to the rejection (\<open>Inl\<close>) or the value (\<open>Inr\<close>) its promise settles with.
  A list request may resolve with \<^verbatim>\<open>null\<close>, which \<^verbatim>\<open>result || []\<close> provides for.
  A diff response that lacks one of its three lists makes \<^verbatim>\<open>.map\<close> throw inside the
  \<^verbatim>\<open>try\<close> that also catches a rejection, so it counts as \<open>Inl\<close>.
\<close>

datatype api_error = Rejected string

record api =
  titorListCheckpoints :: "string \<Rightarrow> api_error + TitorCheckpointInfo list option"
  titorListAllCheckpoints :: "string \<Rightarrow> api_error + TitorCheckpointInfo list option"
  titorDiffCheckpoints :: "string \<Rightarrow> string \<Rightarrow> string \<Rightarrow> api_error + DiffResponse"
  titorForkCheckpoint :: "string \<Rightarrow> string \<Rightarrow> string \<Rightarrow> api_error + string"

text \<open>
  What an operation does to the outside: the requests it sends, the lines it logs and
  the callbacks it invokes, in a trace.
\<close>

datatype event =
  ApiListCheckpoints string
  | ApiListAllCheckpoints string
  | ApiDiffCheckpoints string string string
  | ApiForkCheckpoint string string string
  | ConsoleWarn string
  | ConsoleError string
  | OnForkCheckpoint string string

text \<open>
  The props the logic reads (\<open>onForkCheckpoint\<close>: whether the optional callback was
  passed) and the state variables it reads or sets.
\<close>

record props =
  sessionId_prop :: string
  projectPath_prop :: string
  messages_prop :: "ClaudeStreamMessage list"
  showAllSessions :: bool
  onForkCheckpoint :: bool

record navigator_state =
  checkpoints :: "CheckpointWithUIState list"
  isLoading :: bool
  error :: "string option"
  isOpen :: bool
  selectedCheckpoint :: "string option"
  showForkDialog :: bool
  forkMessage :: string
  isRestoring :: bool

subsection \<open>\<^verbatim>\<open>loadCheckpoints\<close>\<close>

text \<open>
  The callback of \<^verbatim>\<open>sortedCheckpoints.map(async (checkpoint, index) => ...)\<close>. It
  returns the enhanced checkpoint, the diff requests it sends and the warnings it logs.
  A rejected diff request is caught inside the callback: both \<^verbatim>\<open>filesChanged\<close> and
  \<^verbatim>\<open>detailedFileChanges\<close> stay \<^verbatim>\<open>undefined\<close>. The index is a position of
  \<^verbatim>\<open>sortedCheckpoints\<close>, so \<^verbatim>\<open>sortedCheckpoints[index - 1]\<close> is in range when
  \<^verbatim>\<open>index > 0\<close>.
\<close>

definition enhance ::
  "api \<Rightarrow> props \<Rightarrow> TitorCheckpointInfo list \<Rightarrow> TitorCheckpointInfo \<Rightarrow> nat
     \<Rightarrow> CheckpointWithUIState \<times> event list \<times> event list" where
  "enhance a p sortedCheckpoints checkpoint index =
     (let (content, tools) = extractMessageInfo (messages_prop p) (messageIndex checkpoint);
          (fileChanges, requests, warnings) =
            (if index > 0 then
               let prevCheckpoint = sortedCheckpoints ! (index - 1);
                   request = ApiDiffCheckpoints (sessionId_prop p)
                               (checkpointId prevCheckpoint) (checkpointId checkpoint)
               in case titorDiffCheckpoints a (sessionId_prop p)
                         (checkpointId prevCheckpoint) (checkpointId checkpoint) of
                    Inl err \<Rightarrow> (None, [request], [ConsoleWarn (checkpointId checkpoint)])
                  | Inr diff \<Rightarrow>
                      let detailed =
                            \<lparr>added = map extractAddedOrDeleted (addedFiles diff),
                             modified = map extractModified (modifiedFiles diff),
                             deleted = map extractAddedOrDeleted (deletedFiles diff)\<rparr>
                      in (Some (\<lparr>added = int (length (added detailed)),
                                  modified = int (length (modified detailed)),
                                  deleted = int (length (deleted detailed))\<rparr>,
                                detailed),
                          [request], [])
             else
               (Some (\<lparr>added = fileCount checkpoint, modified = 0, deleted = 0\<rparr>,
                      \<lparr>added = [], modified = [], deleted = []\<rparr>),
                [], []))
      in (\<lparr>checkpointId = checkpointId checkpoint,
           messageIndex = messageIndex checkpoint,
           fileCount = fileCount checkpoint,
           verified = None,
           messageContent = Some content,
           toolsUsed = Some tools,
           filesChanged = map_option fst fileChanges,
           detailedFileChanges = map_option snd fileChanges\<rparr>,
          requests, warnings))"

text \<open>The callback of \<^verbatim>\<open>enhancedCheckpoints.filter\<close>.\<close>

definition hasFileChanges :: "CheckpointWithUIState \<Rightarrow> bool" where
  "hasFileChanges checkpoint =
     (case filesChanged checkpoint of
        Some fc \<Rightarrow> added fc > 0 \<or> modified fc > 0 \<or> deleted fc > 0
      | None \<Rightarrow> False)"

text \<open>
  \<^verbatim>\<open>Array.prototype.sort\<close> is stable, and so is \<open>sort_key\<close>. \<^verbatim>\<open>Promise.all\<close> returns the
  enhanced checkpoints in the order of \<^verbatim>\<open>sortedCheckpoints\<close>; the callbacks send their
  requests in that order before any response arrives, and the warnings are listed in it.
\<close>

definition enhancedCheckpoints ::
  "api \<Rightarrow> props \<Rightarrow> TitorCheckpointInfo list
     \<Rightarrow> (CheckpointWithUIState \<times> event list \<times> event list) list" where
  "enhancedCheckpoints a p sortedCheckpoints =
     map (\<lambda>(checkpoint, index). enhance a p sortedCheckpoints checkpoint index)
       (zip sortedCheckpoints [0..<length sortedCheckpoints])"

text \<open>
  The list request of \<^verbatim>\<open>loadCheckpoints\<close>: all checkpoints of the project when
  \<^verbatim>\<open>showAllSessions && projectPath\<close>, those of the session otherwise. It returns the
  request sent and what its promise settles with.
\<close>

definition listRequest ::
  "api \<Rightarrow> props \<Rightarrow> event \<times> (api_error + TitorCheckpointInfo list option)" where
  "listRequest a p =
     (if showAllSessions p \<and> projectPath_prop p \<noteq> []
      then (ApiListAllCheckpoints (projectPath_prop p),
            titorListAllCheckpoints a (projectPath_prop p))
      else (ApiListCheckpoints (sessionId_prop p),
            titorListCheckpoints a (sessionId_prop p)))"

definition loadCheckpoints :: "api \<Rightarrow> props \<Rightarrow> navigator_state \<Rightarrow> navigator_state \<times> event list" where
  "loadCheckpoints a p st =
     (let st1 = st\<lparr>isLoading := True, error := None\<rparr>;
          (request, response) = listRequest a p
      in case response of
           Inl err \<Rightarrow>
             (st1\<lparr>error := Some ''Failed to load checkpoints'', isLoading := False\<rparr>,
              [request, ConsoleError ''Failed to load checkpoints:''])
         | Inr result \<Rightarrow>
             let sortedCheckpoints =
                   sort_key messageIndex (case result of None \<Rightarrow> [] | Some r \<Rightarrow> r);
                 enhanced = enhancedCheckpoints a p sortedCheckpoints;
                 checkpointsWithFileChanges = filter hasFileChanges (map fst enhanced)
             in (st1\<lparr>checkpoints := checkpointsWithFileChanges, isLoading := False\<rparr>,
                 request # concat (map (fst \<circ> snd) enhanced) @ concat (map (snd \<circ> snd) enhanced)))"

subsection \<open>\<^verbatim>\<open>handleForkCheckpoint\<close>\<close>

text \<open>
  \<^verbatim>\<open>String.prototype.trim\<close> removes white space and line terminators from both ends;
  among the code units a \<open>char\<close> can hold these are U+0009 to U+000D, U+0020 and U+00A0.
\<close>

definition isWhiteSpace :: "char \<Rightarrow> bool" where
  "isWhiteSpace c = (of_char c \<in> {9, 10, 11, 12, 13, 32, 160 :: nat})"

definition trim :: "string \<Rightarrow> string" where
  "trim s = rev (dropWhile isWhiteSpace (rev (dropWhile isWhiteSpace s)))"

definition handleForkCheckpoint ::
  "api \<Rightarrow> props \<Rightarrow> navigator_state \<Rightarrow> navigator_state \<times> event list" where
  "handleForkCheckpoint a p st =
     (case selectedCheckpoint st of
        None \<Rightarrow> (st, [])
      | Some selected \<Rightarrow>
          if selected = [] \<or> trim (forkMessage st) = [] then (st, [])
          else
            let st1 = st\<lparr>isRestoring := True, error := None\<rparr>;
                request = ApiForkCheckpoint (sessionId_prop p) selected (forkMessage st)
            in (case titorForkCheckpoint a (sessionId_prop p) selected (forkMessage st) of
                 Inl err \<Rightarrow>
                   (st1\<lparr>error := Some ''Failed to fork checkpoint'', isRestoring := False\<rparr>,
                    [request, ConsoleError ''Failed to fork checkpoint:''])
               | Inr forkedCheckpointId \<Rightarrow>
                   let (st2, events) = loadCheckpoints a p st1;
                       st3 = st2\<lparr>showForkDialog := False, forkMessage := [],
                                 selectedCheckpoint := None, isOpen := False,
                                 isRestoring := False\<rparr>
                   in (st3,
                       request # events @
                       (if onForkCheckpoint p
                        then [OnForkCheckpoint forkedCheckpointId (forkMessage st)]
                        else []))))"

subsection \<open>Readings used to state the properties\<close>

text \<open>
  The total the rendering code shows for a checkpoint:
  \<^verbatim>\<open>(filesChanged?.added || 0) + (filesChanged?.modified || 0) + (filesChanged?.deleted || 0)\<close>.
\<close>

definition totalChanges :: "CheckpointWithUIState \<Rightarrow> int" where
  "totalChanges checkpoint =
     (case filesChanged checkpoint of
        None \<Rightarrow> 0
      | Some fc \<Rightarrow> added fc + modified fc + deleted fc)"

text \<open>
  The strings \<^verbatim>\<open>extractMessageInfo\<close> may take a message's preview from: the text of every
  text item of an assistant message's content array, an assistant message's string
  content, and the text of the first text item of a user message's content array.
\<close>

fun item_texts :: "content_item list \<Rightarrow> string list" where
  "item_texts [] = []"
| "item_texts (TextItem text # items) = textValue text # item_texts items"
| "item_texts (item # items) = item_texts items"

definition extractable_texts :: "ClaudeStreamMessage \<Rightarrow> string list" where
  "extractable_texts message =
     (case (mtype message, message_content message) of
        (Assistant, Some (ContentArray items)) \<Rightarrow> item_texts items
      | (Assistant, Some (ContentString s)) \<Rightarrow> [s]
      | (User, Some (ContentArray items)) \<Rightarrow>
          (case find_text items of None \<Rightarrow> [] | Some text \<Rightarrow> [textValue text])
      | _ \<Rightarrow> [])"

text \<open>The names of the named \<^verbatim>\<open>tool_use\<close> items of an assistant message's content array.\<close>

fun item_tools :: "content_item list \<Rightarrow> string list" where
  "item_tools [] = []"
| "item_tools (ToolUseItem (Some n) # items) =
     (if n \<noteq> [] then n # item_tools items else item_tools items)"
| "item_tools (item # items) = item_tools items"

definition tool_names :: "ClaudeStreamMessage \<Rightarrow> string list" where
  "tool_names message =
     (case (mtype message, message_content message) of
        (Assistant, Some (ContentArray items)) \<Rightarrow> item_tools items
      | _ \<Rightarrow> [])"

subsection \<open>Example checkpoints, API and messages\<close>

definition c0 :: TitorCheckpointInfo where
  "c0 = \<lparr>checkpointId = ''c0'', messageIndex = 0, fileCount = 5\<rparr>"

definition c1 :: TitorCheckpointInfo where
  "c1 = \<lparr>checkpointId = ''c1'', messageIndex = 2, fileCount = 6\<rparr>"

definition c2 :: TitorCheckpointInfo where
  "c2 = \<lparr>checkpointId = ''c2'', messageIndex = 4, fileCount = 6\<rparr>"

definition cx :: TitorCheckpointInfo where
  "cx = \<lparr>checkpointId = ''cx'', messageIndex = 3, fileCount = 6\<rparr>"

definition tie0 :: TitorCheckpointInfo where
  "tie0 = \<lparr>checkpointId = ''c0'', messageIndex = 3, fileCount = 5\<rparr>"

definition tie1 :: TitorCheckpointInfo where
  "tie1 = \<lparr>checkpointId = ''c1'', messageIndex = 3, fileCount = 6\<rparr>"

text \<open>
  The diffs of the specification's example, \<open>diff(c0, c1) = {added: [a]}\<close> and
  \<open>diff(c1, c2) = {added: [b], deleted: [a]}\<close>, with the cumulative \<open>diff(c0, c2)\<close>, an
  empty \<open>diff(cx, c2)\<close>, and a rejection for every other pair.
\<close>

definition example_diff :: "string \<Rightarrow> string \<Rightarrow> string \<Rightarrow> api_error + DiffResponse" where
  "example_diff sid fromId toId =
     (if fromId = ''c0'' \<and> toId = ''c1'' then
        Inr \<lparr>addedFiles = [JStr ''a''], modifiedFiles = [], deletedFiles = []\<rparr>
      else if fromId = ''c1'' \<and> toId = ''c2'' then
        Inr \<lparr>addedFiles = [JStr ''b''], modifiedFiles = [], deletedFiles = [JStr ''a'']\<rparr>
      else if fromId = ''c0'' \<and> toId = ''c2'' then
        Inr \<lparr>addedFiles = [JStr ''a'', JStr ''b''], modifiedFiles = [], deletedFiles = []\<rparr>
      else if fromId = ''cx'' \<and> toId = ''c2'' then
        Inr \<lparr>addedFiles = [], modifiedFiles = [], deletedFiles = []\<rparr>
      else Inl (Rejected ''no such checkpoint''))"

definition example_api :: "TitorCheckpointInfo list \<Rightarrow> api" where
  "example_api listed =
     \<lparr>titorListCheckpoints = (\<lambda>sid. Inr (Some listed)),
      titorListAllCheckpoints = (\<lambda>path. Inr (Some listed)),
      titorDiffCheckpoints = example_diff,
      titorForkCheckpoint = (\<lambda>sid cid msg. Inr (''fork-of-'' @ cid))\<rparr>"

definition long_text :: string where
  "long_text = replicate 151 CHR ''x''"

definition example_messages :: "ClaudeStreamMessage list" where
  "example_messages =
     [\<lparr>mtype = User,
       message_content = Some (ContentArray [TextItem (Some (TextString ''hello''))])\<rparr>,
      \<lparr>mtype = Assistant,
       message_content = Some (ContentArray [ToolUseItem (Some ''Bash'')])\<rparr>,
      \<lparr>mtype = Assistant, message_content = Some (ContentString long_text)\<rparr>]"

definition example_props :: props where
  "example_props =
     \<lparr>sessionId_prop = ''s1'', projectPath_prop = ''/p'', messages_prop = example_messages,
      showAllSessions = False, onForkCheckpoint = True\<rparr>"

definition initial_state :: navigator_state where
  "initial_state =
     \<lparr>checkpoints = [], isLoading = False, error = None, isOpen = True,
      selectedCheckpoint = None, showForkDialog = False, forkMessage = [],
      isRestoring = False\<rparr>"

text \<open>The fork dialog with checkpoint \<open>c1\<close> selected and a description typed in.\<close>

definition fork_state :: "string \<Rightarrow> navigator_state" where
  "fork_state description =
     initial_state\<lparr>selectedCheckpoint := Some ''c1'', showForkDialog := True,
                    forkMessage := description\<rparr>"

section \<open>Properties of the session registry\<close>

lemma getAllSessions_storage: "snd (getAllSessions now st) = st"
  by (simp add: getAllSessions_def split: option.splits stored_text.splits)

lemma getAllSessions_live:
  "fst (getAllSessions now st) k = Some s \<Longrightarrow> now - timestamp s \<le> SESSION_EXPIRY_MS"
  by (auto simp add: getAllSessions_def split: option.splits stored_text.splits if_splits)

text \<open>
  Claim C1, as amended. For every store and every reading \<open>now\<close> of the clock, the
  mapping \<^verbatim>\<open>getAllSessions\<close> returns has no entry older than the 24-hour TTL. The call
  does not write: the storage it leaves is the storage it found, so an expired entry
  stays in the persisted text until a later \<^verbatim>\<open>saveSession\<close> or \<^verbatim>\<open>removeSession\<close>
  writes the pruned mapping.
\<close>

theorem getAllSessions_prunes_result_not_store:
  "(\<forall>k s. fst (getAllSessions now st) k = Some s \<longrightarrow> now - timestamp s \<le> SESSION_EXPIRY_MS)
   \<and> snd (getAllSessions now st) = st"
  using getAllSessions_live getAllSessions_storage by blast

theorem getAllSessions_prunes_result_not_store_witness:
  "fst (getAllSessions 100000000 example_store) ''new'' = Some fresh_session
   \<and> 100000000 - timestamp fresh_session \<le> SESSION_EXPIRY_MS
   \<and> fst (getAllSessions 100000000 example_store) ''old'' = None
   \<and> snd (getAllSessions 100000000 example_store) = example_store"
  using getAllSessions_prunes_result_not_store [of 100000000 example_store]
  by (simp add: getAllSessions_def example_store_def fresh_session_def old_session_def
      SESSION_EXPIRY_MS_def)

text \<open>
  The claim as stated fails: after \<^verbatim>\<open>getAllSessions\<close> at time 100000000 the persisted
  record still holds the session written at time 0, more than 24 hours old.
\<close>

theorem getAllSessions_store_keeps_expired:
  "persisted (snd (getAllSessions 100000000 example_store)) ''old'' = Some old_session
   \<and> 100000000 - timestamp old_session > SESSION_EXPIRY_MS"
  by (simp add: getAllSessions_def persisted_def example_store_def old_session_def
      SESSION_EXPIRY_MS_def)

text \<open>
  Claim C4, as amended. For a stored session \<open>S\<close>, \<^verbatim>\<open>getSession\<close> returns \<^verbatim>\<open>null\<close> once
  a reading of the clock is more than 24 hours after \<open>S\<close>'s timestamp (strictly: \<open>>\<close>,
  the comparison the code makes); while both readings are at most 24 hours after it,
  \<^verbatim>\<open>getSession\<close> returns \<open>S\<close> unchanged and leaves the store as it was.
\<close>

theorem getSession_ttl:
  assumes "stored st = Some (Json sessions)" and "sessions sid = Some S"
  shows "(t1 - timestamp S > SESSION_EXPIRY_MS \<or> t2 - timestamp S > SESSION_EXPIRY_MS
            \<longrightarrow> fst (getSession t1 t2 t3 sid st) = None)
       \<and> (t1 - timestamp S \<le> SESSION_EXPIRY_MS \<and> t2 - timestamp S \<le> SESSION_EXPIRY_MS
            \<longrightarrow> getSession t1 t2 t3 sid st = (Some S, st))"
  using assms by (simp add: getSession_def getAllSessions_def)

theorem getSession_ttl_witness:
  "stored example_store = Some (Json [''old'' \<mapsto> old_session, ''new'' \<mapsto> fresh_session])
   \<and> [''old'' \<mapsto> old_session, ''new'' \<mapsto> fresh_session] ''old'' = Some old_session
   \<and> [''old'' \<mapsto> old_session, ''new'' \<mapsto> fresh_session] ''new'' = Some fresh_session
   \<and> (100000000::int) - timestamp old_session > SESSION_EXPIRY_MS
   \<and> fst (getSession 100000000 100000001 100000002 ''old'' example_store) = None
   \<and> (100000001::int) - timestamp fresh_session \<le> SESSION_EXPIRY_MS
   \<and> getSession 100000000 100000001 100000002 ''new'' example_store
       = (Some fresh_session, example_store)"
proof -
  have st: "stored example_store
              = Some (Json [''old'' \<mapsto> old_session, ''new'' \<mapsto> fresh_session])"
    by (simp add: example_store_def)
  have old: "[''old'' \<mapsto> old_session, ''new'' \<mapsto> fresh_session] ''old'' = Some old_session"
    and new: "[''old'' \<mapsto> old_session, ''new'' \<mapsto> fresh_session] ''new'' = Some fresh_session"
    by simp_all
  have ages: "(100000000::int) - timestamp old_session > SESSION_EXPIRY_MS"
    "(100000000::int) - timestamp fresh_session \<le> SESSION_EXPIRY_MS"
    "(100000001::int) - timestamp fresh_session \<le> SESSION_EXPIRY_MS"
    by (simp_all add: old_session_def fresh_session_def SESSION_EXPIRY_MS_def)
  show ?thesis
    using getSession_ttl [OF st old, of 100000000 100000001 100000002]
      getSession_ttl [OF st new, of 100000000 100000001 100000002]
      st old new ages
    by blast
qed

text \<open>
  The claim as stated fails at the boundary: when exactly 24 hours have passed, the
  comparison \<open>>\<close> does not fire and \<^verbatim>\<open>getSession\<close> returns the session.
\<close>

theorem getSession_returns_session_at_24h:
  "(86400000::int) - timestamp old_session \<ge> 24 * 60 * 60 * 1000
   \<and> fst (getSession 86400000 86400000 86400000 ''old'' example_store) = Some old_session"
  by (simp add: getSession_def getAllSessions_def example_store_def old_session_def
      SESSION_EXPIRY_MS_def)

text \<open>
  When the reading inside \<^verbatim>\<open>getAllSessions\<close> already finds the session expired, the
  entry is gone from the mapping \<^verbatim>\<open>getSession\<close> looks at, which returns at
  \<^verbatim>\<open>if (!session) return null\<close>: the call of \<^verbatim>\<open>removeSession\<close> below it is not reached.
\<close>

lemma getSession_expired_returns_early:
  assumes "stored st = Some (Json sessions)" and "sessions sid = Some S"
    and "t1 - timestamp S > SESSION_EXPIRY_MS"
  shows "getSession t1 t2 t3 sid st = (None, st)"
  using assms by (simp add: getSession_def getAllSessions_def)

text \<open>
  Claim C9. Every \<^verbatim>\<open>saveSession\<close> and every \<^verbatim>\<open>removeSession\<close> whose write succeeds
  compacts the store: it replaces the persisted record by the whole mapping
  \<^verbatim>\<open>getAllSessions\<close> returned, with the named entry added or deleted, and changes
  nothing else. That mapping holds exactly the entries of the persisted record that were
  not older than the 24-hour TTL at the time of the call, so every such entry stays and
  no older one is left, whatever session the call named. (The entry \<^verbatim>\<open>saveSession\<close>
  adds carries the second reading of the clock, which is not before the first.)
\<close>

theorem saveSession_removeSession_compact:
  assumes "writable st" and "t1 \<le> t2"
  shows "saveSession t1 t2 sid path msgs st
           = st\<lparr>stored := Some (Json ((fst (getAllSessions t1 st))(sid \<mapsto>
                 \<lparr>sessionId = sid, projectPath = path, messages = msgs, timestamp = t2\<rparr>)))\<rparr>
       \<and> removeSession t1 sid' st
           = st\<lparr>stored := Some (Json ((fst (getAllSessions t1 st))(sid' := None)))\<rparr>
       \<and> (\<forall>k. fst (getAllSessions t1 st) k
                = (case persisted st k of
                     None \<Rightarrow> None
                   | Some s \<Rightarrow> if t1 - timestamp s > SESSION_EXPIRY_MS then None else Some s))
       \<and> (\<exists>m. stored (saveSession t1 t2 sid path msgs st) = Some (Json m)
            \<and> (\<forall>k s. m k = Some s \<longrightarrow> t1 - timestamp s \<le> SESSION_EXPIRY_MS))
       \<and> (\<exists>m. stored (removeSession t1 sid' st) = Some (Json m)
            \<and> (\<forall>k s. m k = Some s \<longrightarrow> t1 - timestamp s \<le> SESSION_EXPIRY_MS))"
proof (intro conjI)
  show "saveSession t1 t2 sid path msgs st
           = st\<lparr>stored := Some (Json ((fst (getAllSessions t1 st))(sid \<mapsto>
                 \<lparr>sessionId = sid, projectPath = path, messages = msgs, timestamp = t2\<rparr>)))\<rparr>"
    using assms(1)
    by (simp add: saveSession_def setItem_def case_prod_beta getAllSessions_storage)
  show "removeSession t1 sid' st
           = st\<lparr>stored := Some (Json ((fst (getAllSessions t1 st))(sid' := None)))\<rparr>"
    using assms(1)
    by (simp add: removeSession_def setItem_def case_prod_beta getAllSessions_storage)
  show "\<forall>k. fst (getAllSessions t1 st) k
                = (case persisted st k of
                     None \<Rightarrow> None
                   | Some s \<Rightarrow> if t1 - timestamp s > SESSION_EXPIRY_MS then None else Some s)"
    by (simp add: getAllSessions_def persisted_def split: option.splits stored_text.splits)
  show "\<exists>m. stored (saveSession t1 t2 sid path msgs st) = Some (Json m)
            \<and> (\<forall>k s. m k = Some s \<longrightarrow> t1 - timestamp s \<le> SESSION_EXPIRY_MS)"
    using assms
    by (auto simp add: saveSession_def getAllSessions_def setItem_def
        SESSION_EXPIRY_MS_def split: option.splits stored_text.splits if_splits)
  show "\<exists>m. stored (removeSession t1 sid' st) = Some (Json m)
            \<and> (\<forall>k s. m k = Some s \<longrightarrow> t1 - timestamp s \<le> SESSION_EXPIRY_MS)"
    using assms
    by (auto simp add: removeSession_def getAllSessions_def setItem_def
        SESSION_EXPIRY_MS_def split: option.splits stored_text.splits if_splits)
qed

theorem saveSession_removeSession_compact_witness:
  "writable example_store \<and> (100000000::int) \<le> 100000001
   \<and> persisted example_store ''old'' = Some old_session
   \<and> persisted example_store ''new'' = Some fresh_session
   \<and> (100000000::int) - timestamp old_session > SESSION_EXPIRY_MS
   \<and> persisted (saveSession 100000000 100000001 ''s3'' ''/r'' [] example_store) ''old'' = None
   \<and> persisted (saveSession 100000000 100000001 ''s3'' ''/r'' [] example_store) ''new''
       = Some fresh_session
   \<and> persisted (saveSession 100000000 100000001 ''s3'' ''/r'' [] example_store) ''s3''
       = Some \<lparr>sessionId = ''s3'', projectPath = ''/r'', messages = [], timestamp = 100000001\<rparr>
   \<and> persisted (removeSession 100000000 ''s3'' example_store) ''old'' = None
   \<and> persisted (removeSession 100000000 ''s3'' example_store) ''new'' = Some fresh_session
   \<and> (\<exists>m. stored (saveSession 100000000 100000001 ''s3'' ''/r'' [] example_store) = Some (Json m)
         \<and> (\<forall>k s. m k = Some s \<longrightarrow> 100000000 - timestamp s \<le> SESSION_EXPIRY_MS))
   \<and> (\<exists>m. stored (removeSession 100000000 ''s3'' example_store) = Some (Json m)
         \<and> (\<forall>k s. m k = Some s \<longrightarrow> 100000000 - timestamp s \<le> SESSION_EXPIRY_MS))"
proof -
  have w: "writable example_store" and le: "(100000000::int) \<le> 100000001"
    by (simp_all add: example_store_def)
  note t = saveSession_removeSession_compact [OF w le, of "''s3''" "''/r''" "[]" "''s3''"]
  have before: "persisted example_store ''old'' = Some old_session"
    "persisted example_store ''new'' = Some fresh_session"
    "(100000000::int) - timestamp old_session > SESSION_EXPIRY_MS"
    by (simp_all add: persisted_def example_store_def old_session_def SESSION_EXPIRY_MS_def)
  have pruned: "fst (getAllSessions 100000000 example_store) ''old'' = None"
    "fst (getAllSessions 100000000 example_store) ''new'' = Some fresh_session"
    "fst (getAllSessions 100000000 example_store) ''s3'' = None"
    by (simp_all add: getAllSessions_def example_store_def old_session_def fresh_session_def
        SESSION_EXPIRY_MS_def)
  have saved: "persisted (saveSession 100000000 100000001 ''s3'' ''/r'' [] example_store) ''old'' = None"
    "persisted (saveSession 100000000 100000001 ''s3'' ''/r'' [] example_store) ''new''
       = Some fresh_session"
    "persisted (saveSession 100000000 100000001 ''s3'' ''/r'' [] example_store) ''s3''
       = Some \<lparr>sessionId = ''s3'', projectPath = ''/r'', messages = [], timestamp = 100000001\<rparr>"
    unfolding t [THEN conjunct1] by (simp_all add: persisted_def pruned)
  have removed: "persisted (removeSession 100000000 ''s3'' example_store) ''old'' = None"
    "persisted (removeSession 100000000 ''s3'' example_store) ''new'' = Some fresh_session"
    unfolding t [THEN conjunct2, THEN conjunct1] by (simp_all add: persisted_def pruned)
  show ?thesis
    using t w le before saved removed by blast
qed

section \<open>Properties of the message preview\<close>

lemma length_substring150: "length (substring150 s) \<le> 153"
  by (simp add: substring150_def)

lemma substring150_Nil: "substring150 [] = []"
  by (simp add: substring150_def)

lemma substring150_eq_Nil: "substring150 s = [] \<longleftrightarrow> s = []"
  by (auto simp add: substring150_def)

lemma assistant_items_content:
  "fst (assistant_items items (content, tools)) = content
   \<or> (\<exists>t \<in> set (item_texts items). t \<noteq> [] \<and> fst (assistant_items items (content, tools)) = substring150 t)"
proof (induction items arbitrary: content tools)
  case Nil
  then show ?case by simp
next
  case (Cons item items)
  show ?case
  proof (cases item)
    case (TextItem tf)
    show ?thesis
      using Cons.IH [of "if textValue tf \<noteq> [] \<and> length content < 150 then substring150 (textValue tf) else content" tools]
      unfolding TextItem by (auto split: if_splits)
  next
    case (ToolUseItem name)
    show ?thesis
      using Cons.IH [of content "case name of None \<Rightarrow> tools | Some n \<Rightarrow> if n \<noteq> [] then tools @ [n] else tools"]
      unfolding ToolUseItem by (cases name) auto
  next
    case OtherItem
    show ?thesis using Cons.IH [of content tools] unfolding OtherItem by auto
  qed
qed

lemma assistant_items_tools:
  "snd (assistant_items items (content, tools)) = tools @ item_tools items"
  by (induction items "(content, tools)" arbitrary: content tools rule: assistant_items.induct)
     (auto split: option.splits)

lemma user_text_eq: "user_text (Some text) = substring150 (textValue text)"
  by (cases "Some text" rule: user_text.cases) (auto simp add: substring150_Nil)

lemma extract_in_range:
  assumes "0 \<le> i" and "i < int (length msgs)"
  shows "snd (extractMessageInfo msgs i) = tool_names (msgs ! nat i)"
    and "fst (extractMessageInfo msgs i) = ''No content''
         \<or> (\<exists>t \<in> set (extractable_texts (msgs ! nat i)). t \<noteq> []
               \<and> fst (extractMessageInfo msgs i) = substring150 t)"
proof -
  let ?m = "msgs ! nat i"
  show "snd (extractMessageInfo msgs i) = tool_names ?m"
    using assms
    by (auto simp add: Let_def extractMessageInfo_def tool_names_def case_prod_beta assistant_items_tools
        split: option.splits message_content.splits message_type.splits)
  show "fst (extractMessageInfo msgs i) = ''No content''
         \<or> (\<exists>t \<in> set (extractable_texts ?m). t \<noteq> []
               \<and> fst (extractMessageInfo msgs i) = substring150 t)"
  proof (cases "mtype ?m")
    case Assistant
    show ?thesis
    proof (cases "message_content ?m")
      case None
      then show ?thesis using assms Assistant by (simp add: Let_def extractMessageInfo_def)
    next
      case (Some c)
      show ?thesis
      proof (cases c)
        case (ContentArray items)
        from assistant_items_content [of items "[]" "[]"]
        show ?thesis using assms Assistant Some ContentArray
          by (auto simp add: Let_def extractMessageInfo_def extractable_texts_def case_prod_beta substring150_eq_Nil)
      next
        case (ContentString s)
        then show ?thesis using assms Assistant Some
          by (auto simp add: Let_def extractMessageInfo_def extractable_texts_def substring150_eq_Nil)
      qed
    qed
  next
    case User
    show ?thesis
    proof (cases "message_content ?m")
      case None
      then show ?thesis using assms User by (simp add: Let_def extractMessageInfo_def)
    next
      case (Some c)
      show ?thesis
      proof (cases c)
        case (ContentArray items)
        show ?thesis
        proof (cases "find_text items")
          case None
          then show ?thesis using assms User Some ContentArray
            by (simp add: Let_def extractMessageInfo_def)
        next
          case (Some tf)
          then show ?thesis using assms User \<open>message_content ?m = Some c\<close> ContentArray
            by (auto simp add: Let_def extractMessageInfo_def extractable_texts_def user_text_eq substring150_eq_Nil)
        qed
      next
        case (ContentString s)
        then show ?thesis using assms User Some
          by (auto simp add: Let_def extractMessageInfo_def)
      qed
    qed
  next
    case OtherType
    then show ?thesis using assms by (simp add: Let_def extractMessageInfo_def)
  qed
qed

lemma enhance_messageContent:
  "messageContent (fst (enhance a p cs c index))
     = Some (fst (extractMessageInfo (messages_prop p) (messageIndex c)))"
  by (simp add: enhance_def Let_def case_prod_beta)

lemma assistant_items_nonempty:
  "content \<noteq> [] \<or> (\<exists>t \<in> set (item_texts items). t \<noteq> [])
     \<Longrightarrow> fst (assistant_items items (content, tools)) \<noteq> []"
proof (induction items arbitrary: content tools)
  case Nil
  then show ?case by simp
next
  case (Cons item items)
  show ?case
  proof (cases item)
    case (TextItem tf)
    let ?c = "if textValue tf \<noteq> [] \<and> length content < 150
              then substring150 (textValue tf) else content"
    have "?c \<noteq> [] \<or> (\<exists>t \<in> set (item_texts items). t \<noteq> [])"
      using Cons.prems unfolding TextItem by (auto simp add: substring150_eq_Nil)
    then have "fst (assistant_items items (?c, tools)) \<noteq> []"
      by (rule Cons.IH)
    then show ?thesis unfolding TextItem by simp
  next
    case (ToolUseItem name)
    have "content \<noteq> [] \<or> (\<exists>t \<in> set (item_texts items). t \<noteq> [])"
      using Cons.prems unfolding ToolUseItem by simp
    then have "fst (assistant_items items
        (content, case name of None \<Rightarrow> tools | Some n \<Rightarrow> if n \<noteq> [] then tools @ [n] else tools)) \<noteq> []"
      by (rule Cons.IH)
    then show ?thesis unfolding ToolUseItem by simp
  next
    case OtherItem
    have "content \<noteq> [] \<or> (\<exists>t \<in> set (item_texts items). t \<noteq> [])"
      using Cons.prems unfolding OtherItem by simp
    then have "fst (assistant_items items (content, tools)) \<noteq> []"
      by (rule Cons.IH)
    then show ?thesis unfolding OtherItem by simp
  qed
qed

lemma extract_with_text:
  assumes "0 \<le> i" and "i < int (length msgs)"
    and "\<exists>t \<in> set (extractable_texts (msgs ! nat i)). t \<noteq> []"
  shows "\<exists>t \<in> set (extractable_texts (msgs ! nat i)). t \<noteq> []
           \<and> fst (extractMessageInfo msgs i) = substring150 t"
proof -
  let ?m = "msgs ! nat i"
  show ?thesis
  proof (cases "mtype ?m")
    case Assistant
    show ?thesis
    proof (cases "message_content ?m")
      case None
      then show ?thesis using assms(3) Assistant by (simp add: extractable_texts_def)
    next
      case (Some c)
      show ?thesis
      proof (cases c)
        case (ContentArray items)
        have texts: "extractable_texts ?m = item_texts items"
          using Assistant Some ContentArray by (simp add: extractable_texts_def)
        have ne: "fst (assistant_items items ([], [])) \<noteq> []"
          using assms(3) unfolding texts by (intro assistant_items_nonempty) simp
        with assistant_items_content [of items "[]" "[]"]
        obtain t where t: "t \<in> set (item_texts items)" "t \<noteq> []"
          "fst (assistant_items items ([], [])) = substring150 t"
          by auto
        have "fst (extractMessageInfo msgs i) = fst (assistant_items items ([], []))"
          using assms(1,2) Assistant Some ContentArray ne
          by (simp add: extractMessageInfo_def Let_def case_prod_beta)
        with t show ?thesis unfolding texts by auto
      next
        case (ContentString s)
        then show ?thesis using assms Assistant Some
          by (auto simp add: Let_def extractMessageInfo_def extractable_texts_def substring150_eq_Nil)
      qed
    qed
  next
    case User
    show ?thesis
    proof (cases "message_content ?m")
      case None
      then show ?thesis using assms(3) User by (simp add: extractable_texts_def)
    next
      case (Some c)
      show ?thesis
      proof (cases c)
        case (ContentArray items)
        show ?thesis
        proof (cases "find_text items")
          case None
          then show ?thesis using assms(3) User Some ContentArray
            by (simp add: extractable_texts_def)
        next
          case (Some tf)
          then show ?thesis using assms User \<open>message_content ?m = Some c\<close> ContentArray
            by (auto simp add: Let_def extractMessageInfo_def extractable_texts_def user_text_eq
                substring150_eq_Nil)
        qed
      next
        case (ContentString s)
        then show ?thesis using assms(3) User Some
          by (simp add: extractable_texts_def)
      qed
    qed
  next
    case OtherType
    then show ?thesis using assms(3) by (simp add: extractable_texts_def)
  qed
qed

lemma extract_without_text:
  assumes "0 \<le> i" and "i < int (length msgs)"
    and "\<forall>t \<in> set (extractable_texts (msgs ! nat i)). t = []"
  shows "fst (extractMessageInfo msgs i) = ''No content''"
  using extract_in_range(2) [OF assms(1,2)] assms(3) by blast

text \<open>
  Claim C7, as amended. The preview \<^verbatim>\<open>extractMessageInfo\<close> returns is at most 153
  characters long. For a message in range that has a non-empty text, it is the preview
  of such a text: the first 150 characters of that text, followed by \<^verbatim>\<open>'...'\<close> when
  the text is longer than 150 characters. For a message in range with no non-empty text
  it is \<^verbatim>\<open>'No content'\<close>. The enriched checkpoint's \<^verbatim>\<open>messageContent\<close> is this
  preview for the message at the checkpoint's \<^verbatim>\<open>messageIndex\<close>.
\<close>

theorem messageContent_preview:
  "length (fst (extractMessageInfo msgs i)) \<le> 153
   \<and> (0 \<le> i \<and> i < int (length msgs)
        \<and> (\<exists>t \<in> set (extractable_texts (msgs ! nat i)). t \<noteq> []) \<longrightarrow>
          (\<exists>t \<in> set (extractable_texts (msgs ! nat i)). t \<noteq> []
              \<and> fst (extractMessageInfo msgs i)
                  = take 150 t @ (if length t > 150 then ''...'' else [])))
   \<and> (0 \<le> i \<and> i < int (length msgs)
        \<and> (\<forall>t \<in> set (extractable_texts (msgs ! nat i)). t = []) \<longrightarrow>
          fst (extractMessageInfo msgs i) = ''No content'')
   \<and> (0 \<le> i \<and> i < int (length msgs) \<longrightarrow>
        fst (extractMessageInfo msgs i) = ''No content''
        \<or> (\<exists>t \<in> set (extractable_texts (msgs ! nat i)). t \<noteq> []
              \<and> fst (extractMessageInfo msgs i)
                  = take 150 t @ (if length t > 150 then ''...'' else [])))
   \<and> messageContent (fst (enhance a p cs c index))
        = Some (fst (extractMessageInfo (messages_prop p) (messageIndex c)))"
proof -
  have in_range: "fst (extractMessageInfo msgs i) = ''No content''
        \<or> (\<exists>t \<in> set (extractable_texts (msgs ! nat i)). t \<noteq> []
              \<and> fst (extractMessageInfo msgs i) = substring150 t)"
    if "0 \<le> i" and "i < int (length msgs)"
    using extract_in_range(2) [OF that] .
  have bound: "length (fst (extractMessageInfo msgs i)) \<le> 153"
  proof (cases "0 \<le> i \<and> i < int (length msgs)")
    case True
    with in_range show ?thesis
      using length_substring150 by auto
  next
    case False
    then show ?thesis by (auto simp add: extractMessageInfo_def)
  qed
  have with_text: "\<exists>t \<in> set (extractable_texts (msgs ! nat i)). t \<noteq> []
           \<and> fst (extractMessageInfo msgs i) = substring150 t"
    if "0 \<le> i" and "i < int (length msgs)"
      and "\<exists>t \<in> set (extractable_texts (msgs ! nat i)). t \<noteq> []"
    using extract_with_text [OF that] .
  have without_text: "fst (extractMessageInfo msgs i) = ''No content''"
    if "0 \<le> i" and "i < int (length msgs)"
      and "\<forall>t \<in> set (extractable_texts (msgs ! nat i)). t = []"
    using extract_without_text [OF that] .
  show ?thesis
    using bound in_range with_text without_text enhance_messageContent
    unfolding substring150_def by blast
qed

theorem messageContent_preview_witness:
  "(0::int) \<le> 2 \<and> 2 < int (length example_messages)
   \<and> extractable_texts (example_messages ! nat 2) = [long_text]
   \<and> long_text \<noteq> [] \<and> length long_text = 151
   \<and> fst (extractMessageInfo example_messages 2) = take 150 long_text @ ''...''
   \<and> length (fst (extractMessageInfo example_messages 2)) \<le> 153
   \<and> (0::int) \<le> 0 \<and> 0 < int (length example_messages)
   \<and> extractable_texts (example_messages ! nat 0) = [''hello'']
   \<and> fst (extractMessageInfo example_messages 0) = ''hello''
   \<and> (0::int) \<le> 1 \<and> 1 < int (length example_messages)
   \<and> extractable_texts (example_messages ! nat 1) = []
   \<and> fst (extractMessageInfo example_messages 1) = ''No content''"
proof -
  have r: "(0::int) \<le> 2" "2 < int (length example_messages)"
    "(0::int) \<le> 0" "0 < int (length example_messages)"
    "(0::int) \<le> 1" "1 < int (length example_messages)"
    by (simp_all add: example_messages_def)
  have t2: "extractable_texts (example_messages ! nat 2) = [long_text]"
    and t0: "extractable_texts (example_messages ! nat 0) = [''hello'']"
    and t1: "extractable_texts (example_messages ! nat 1) = []"
    by (simp_all add: example_messages_def extractable_texts_def)
  have l: "long_text \<noteq> []" "length long_text = 151"
    by (simp_all add: long_text_def)
  have c2: "fst (extractMessageInfo example_messages 2) = take 150 long_text @ ''...''"
    using messageContent_preview [of example_messages 2] r t2 l by simp
  have b2: "length (fst (extractMessageInfo example_messages 2)) \<le> 153"
    using messageContent_preview [of example_messages 2] by blast
  have c0: "fst (extractMessageInfo example_messages 0) = ''hello''"
    using messageContent_preview [of example_messages 0] r t0 by simp
  have c1: "fst (extractMessageInfo example_messages 1) = ''No content''"
    using messageContent_preview [of example_messages 1] r t1 by simp
  from r t2 t0 t1 l c2 b2 c0 c1 show ?thesis by blast
qed

text \<open>
  The claim as stated fails: a text of 151 characters gives a \<^verbatim>\<open>messageContent\<close> of
  153 characters, the 150 kept and the three of the ellipsis.
\<close>

theorem messageContent_longer_than_150:
  "extractable_texts (example_messages ! 2) = [long_text]
   \<and> length long_text = 151
   \<and> messageContent (fst (enhance (example_api [c0, c1]) example_props [c0, c1] c1 1))
       = Some (replicate 150 CHR ''x'' @ ''...'')
   \<and> length (replicate 150 CHR ''x'' @ ''...'') = 153"
  by (simp add: enhance_def Let_def case_prod_beta extractMessageInfo_def example_props_def
      example_messages_def extractable_texts_def long_text_def substring150_def c1_def)

text \<open>
  Claim C10, as amended. \<^verbatim>\<open>extractMessageInfo\<close> is total. For a \<^verbatim>\<open>messageIndex\<close>
  that is negative or at or beyond the array length it returns the content \<^verbatim>\<open>''\<close> and
  an empty tools list. For a message in range from which no non-empty text can be
  extracted it returns \<^verbatim>\<open>'No content'\<close> together with the names of the message's
  \<^verbatim>\<open>tool_use\<close> items; that list is empty for every message that is not an assistant
  message with an array content.
\<close>

theorem extractMessageInfo_boundary:
  "(i < 0 \<or> int (length msgs) \<le> i \<longrightarrow> extractMessageInfo msgs i = ([], []))
   \<and> (0 \<le> i \<and> i < int (length msgs)
        \<and> (\<forall>t \<in> set (extractable_texts (msgs ! nat i)). t = []) \<longrightarrow>
          extractMessageInfo msgs i = (''No content'', tool_names (msgs ! nat i)))
   \<and> (0 \<le> i \<and> i < int (length msgs)
        \<and> (mtype (msgs ! nat i) \<noteq> Assistant
            \<or> (\<forall>items. message_content (msgs ! nat i) \<noteq> Some (ContentArray items))) \<longrightarrow>
          snd (extractMessageInfo msgs i) = [])"
proof (intro conjI impI)
  assume "i < 0 \<or> int (length msgs) \<le> i"
  then show "extractMessageInfo msgs i = ([], [])"
    by (auto simp add: extractMessageInfo_def)
next
  assume h: "0 \<le> i \<and> i < int (length msgs)
        \<and> (\<forall>t \<in> set (extractable_texts (msgs ! nat i)). t = [])"
  then have "fst (extractMessageInfo msgs i) = ''No content''"
    using extract_in_range(2) [of i msgs] by blast
  moreover have "snd (extractMessageInfo msgs i) = tool_names (msgs ! nat i)"
    using h extract_in_range(1) [of i msgs] by blast
  ultimately show "extractMessageInfo msgs i = (''No content'', tool_names (msgs ! nat i))"
    by (simp add: prod_eq_iff)
next
  assume h: "0 \<le> i \<and> i < int (length msgs)
        \<and> (mtype (msgs ! nat i) \<noteq> Assistant
            \<or> (\<forall>items. message_content (msgs ! nat i) \<noteq> Some (ContentArray items)))"
  then have "snd (extractMessageInfo msgs i) = tool_names (msgs ! nat i)"
    using extract_in_range(1) [of i msgs] by blast
  moreover have "tool_names (msgs ! nat i) = []"
    using h by (auto simp add: tool_names_def split: message_type.splits option.splits message_content.splits)
  ultimately show "snd (extractMessageInfo msgs i) = []" by simp
qed

theorem extractMessageInfo_boundary_witness:
  "extractMessageInfo example_messages 3 = ([], [])
   \<and> extractMessageInfo example_messages (- 1) = ([], [])
   \<and> (0::int) \<le> 1 \<and> 1 < int (length example_messages)
   \<and> extractable_texts (example_messages ! nat 1) = []
   \<and> extractMessageInfo example_messages 1 = (''No content'', tool_names (example_messages ! nat 1))
   \<and> mtype (example_messages ! nat 0) \<noteq> Assistant
   \<and> snd (extractMessageInfo example_messages 0) = []"
  using extractMessageInfo_boundary [of 3 example_messages]
    extractMessageInfo_boundary [of "- 1" example_messages]
    extractMessageInfo_boundary [of 1 example_messages]
    extractMessageInfo_boundary [of 0 example_messages]
  by (simp add: example_messages_def extractable_texts_def)

text \<open>
  The claim as stated fails: an assistant message holding only a \<^verbatim>\<open>tool_use\<close> item has no
  extractable text, and the tools list returned for it is not empty.
\<close>

theorem extractMessageInfo_tools_without_text:
  "extractable_texts (example_messages ! 1) = []
   \<and> extractMessageInfo example_messages 1 = (''No content'', [''Bash''])"
  by (simp add: extractMessageInfo_def example_messages_def extractable_texts_def)

section \<open>Properties of loading the checkpoints\<close>

lemma length_enhancedCheckpoints: "length (enhancedCheckpoints a p cs) = length cs"
  by (simp add: enhancedCheckpoints_def)

lemma nth_enhancedCheckpoints:
  "i < length cs \<Longrightarrow> enhancedCheckpoints a p cs ! i = enhance a p cs (cs ! i) i"
  by (simp add: enhancedCheckpoints_def)

lemma messageIndex_enhance: "messageIndex (fst (enhance a p cs c i)) = messageIndex c"
  by (simp add: enhance_def Let_def case_prod_beta)

lemma messageIndex_enhancedCheckpoints:
  "map messageIndex (map fst (enhancedCheckpoints a p cs)) = map messageIndex cs"
  by (rule nth_equalityI)
     (simp_all add: length_enhancedCheckpoints nth_enhancedCheckpoints messageIndex_enhance)

lemma enhance_first:
  "enhance a p cs c 0 =
     (\<lparr>checkpointId = checkpointId c, messageIndex = messageIndex c, fileCount = fileCount c,
       verified = None,
       messageContent = Some (fst (extractMessageInfo (messages_prop p) (messageIndex c))),
       toolsUsed = Some (snd (extractMessageInfo (messages_prop p) (messageIndex c))),
       filesChanged = Some \<lparr>added = fileCount c, modified = 0, deleted = 0\<rparr>,
       detailedFileChanges = Some \<lparr>added = [], modified = [], deleted = []\<rparr>\<rparr>, [], [])"
  by (simp add: enhance_def Let_def case_prod_beta)

lemma enhance_requests:
  "fst (snd (enhance a p cs c i)) =
     (if 0 < i
      then [ApiDiffCheckpoints (sessionId_prop p) (checkpointId (cs ! (i - 1))) (checkpointId c)]
      else [])"
  by (simp add: enhance_def Let_def case_prod_beta split: sum.splits)

lemma enhance_rejected:
  assumes "0 < i"
    and "titorDiffCheckpoints a (sessionId_prop p) (checkpointId (cs ! (i - 1))) (checkpointId c) = Inl err"
  shows "filesChanged (fst (enhance a p cs c i)) = None"
    and "detailedFileChanges (fst (enhance a p cs c i)) = None"
    and "snd (snd (enhance a p cs c i)) = [ConsoleWarn (checkpointId c)]"
  using assms by (simp_all add: enhance_def Let_def case_prod_beta)

lemma enhance_resolved:
  assumes "0 < i"
    and "titorDiffCheckpoints a (sessionId_prop p) (checkpointId (cs ! (i - 1))) (checkpointId c) = Inr diff"
  shows "filesChanged (fst (enhance a p cs c i)) =
           Some \<lparr>added = int (length (addedFiles diff)),
                 modified = int (length (modifiedFiles diff)),
                 deleted = int (length (deletedFiles diff))\<rparr>"
    and "detailedFileChanges (fst (enhance a p cs c i)) =
           Some \<lparr>added = map extractAddedOrDeleted (addedFiles diff),
                 modified = map extractModified (modifiedFiles diff),
                 deleted = map extractAddedOrDeleted (deletedFiles diff)\<rparr>"
    and "snd (snd (enhance a p cs c i)) = []"
  using assms by (simp_all add: enhance_def Let_def case_prod_beta)

lemma enhance_warnings:
  "e \<in> set (snd (snd (enhance a p cs c i))) \<Longrightarrow> e = ConsoleWarn (checkpointId c)"
  by (auto simp add: enhance_def Let_def case_prod_beta split: if_splits sum.splits)

lemma hasFileChanges_enhance:
  "hasFileChanges (fst (enhance a p cs c i)) \<longleftrightarrow> 0 < totalChanges (fst (enhance a p cs c i))"
proof -
  have pos: "0 < int (length xs) + int (length ys) + int (length zs)"
    if "xs \<noteq> [] \<or> ys \<noteq> [] \<or> zs \<noteq> []" for xs ys zs :: "json list"
  proof -
    from that have "0 < length xs \<or> 0 < length ys \<or> 0 < length zs" by simp
    then show ?thesis by linarith
  qed
  show ?thesis
    by (auto simp add: enhance_def Let_def case_prod_beta hasFileChanges_def totalChanges_def
        split: sum.splits intro: pos)
qed

lemma loadCheckpoints_resolved:
  assumes "snd (listRequest a p) = Inr result"
  shows "loadCheckpoints a p st =
     (st\<lparr>isLoading := False, error := None,
         checkpoints := filter hasFileChanges
            (map fst (enhancedCheckpoints a p
               (sort_key messageIndex (case result of None \<Rightarrow> [] | Some r \<Rightarrow> r))))\<rparr>,
      fst (listRequest a p)
        # concat (map (fst \<circ> snd) (enhancedCheckpoints a p
               (sort_key messageIndex (case result of None \<Rightarrow> [] | Some r \<Rightarrow> r))))
        @ concat (map (snd \<circ> snd) (enhancedCheckpoints a p
               (sort_key messageIndex (case result of None \<Rightarrow> [] | Some r \<Rightarrow> r)))))"
  using assms by (cases "listRequest a p") (simp add: loadCheckpoints_def Let_def)

lemma loadCheckpoints_rejected:
  assumes "snd (listRequest a p) = Inl err"
  shows "loadCheckpoints a p st =
     (st\<lparr>isLoading := False, error := Some ''Failed to load checkpoints''\<rparr>,
      [fst (listRequest a p), ConsoleError ''Failed to load checkpoints:''])"
  using assms by (cases "listRequest a p") (simp add: loadCheckpoints_def Let_def)

lemma filter_enhanced_total:
  "filter hasFileChanges (map fst (enhancedCheckpoints a p cs))
     = filter (\<lambda>c. 0 < totalChanges c) (map fst (enhancedCheckpoints a p cs))"
proof (rule filter_cong [OF refl])
  fix c assume "c \<in> set (map fst (enhancedCheckpoints a p cs))"
  then obtain i where "i < length cs" and "c = fst (enhancedCheckpoints a p cs ! i)"
    by (auto simp add: in_set_conv_nth length_enhancedCheckpoints)
  then show "hasFileChanges c = (0 < totalChanges c)"
    by (simp add: nth_enhancedCheckpoints hasFileChanges_enhance)
qed

lemma diff_requests_enhancedCheckpoints:
  "concat (map (fst \<circ> snd) (enhancedCheckpoints a p cs)) =
     map (\<lambda>i. ApiDiffCheckpoints (sessionId_prop p)
                 (checkpointId (cs ! (i - 1))) (checkpointId (cs ! i)))
       [1..<length cs]"
proof -
  let ?r = "\<lambda>i. ApiDiffCheckpoints (sessionId_prop p)
                 (checkpointId (cs ! (i - 1))) (checkpointId (cs ! i))"
  have "map (fst \<circ> snd) (enhancedCheckpoints a p cs)
          = map (\<lambda>i. if 0 < i then [?r i] else []) [0..<length cs]"
    by (rule nth_equalityI)
       (simp_all add: length_enhancedCheckpoints nth_enhancedCheckpoints enhance_requests)
  moreover have "concat (map (\<lambda>i. if 0 < i then [?r i] else []) [0..<n]) = map ?r [1..<n]" for n
    by (induction n) auto
  ultimately show ?thesis by simp
qed

lemma warnings_enhancedCheckpoints:
  assumes "w \<in> set (concat (map (snd \<circ> snd) (enhancedCheckpoints a p cs)))"
  shows "\<exists>c. w = ConsoleWarn c"
proof -
  from assms obtain x where x: "x \<in> set (enhancedCheckpoints a p cs)" and w: "w \<in> set (snd (snd x))"
    by auto
  from x obtain i where "i < length cs" and "x = enhancedCheckpoints a p cs ! i"
    by (auto simp add: in_set_conv_nth length_enhancedCheckpoints)
  with w have "w \<in> set (snd (snd (enhance a p cs (cs ! i) i)))"
    by (simp add: nth_enhancedCheckpoints)
  then show ?thesis
    using enhance_warnings by blast
qed

text \<open>
  Claim C2. In a load whose list request resolves with \<open>raw\<close>, the checkpoint at position
  \<open>i > 0\<close> of the sequence sorted by \<^verbatim>\<open>messageIndex\<close> sends exactly one diff request,
  from the checkpoint at position \<open>i - 1\<close> to itself, and when that request resolves its
  \<^verbatim>\<open>filesChanged\<close> and \<^verbatim>\<open>detailedFileChanges\<close> are computed from that response.
  The whole load sends the list request, then these diff requests for \<open>i = 1, 2, ...\<close>
  and no other request; what follows in its trace are warnings.
\<close>

theorem loadCheckpoints_incremental_diff:
  assumes "snd (listRequest a p) = Inr (Some raw)" and "0 < i" and "i < length raw"
  shows "(let sortedCheckpoints = sort_key messageIndex raw;
              prevCheckpoint = sortedCheckpoints ! (i - 1);
              checkpoint = sortedCheckpoints ! i;
              e = enhancedCheckpoints a p sortedCheckpoints ! i
          in fst (snd e) = [ApiDiffCheckpoints (sessionId_prop p)
                              (checkpointId prevCheckpoint) (checkpointId checkpoint)]
             \<and> (\<forall>diff. titorDiffCheckpoints a (sessionId_prop p)
                          (checkpointId prevCheckpoint) (checkpointId checkpoint) = Inr diff \<longrightarrow>
                   filesChanged (fst e) =
                     Some \<lparr>added = int (length (addedFiles diff)),
                           modified = int (length (modifiedFiles diff)),
                           deleted = int (length (deletedFiles diff))\<rparr>
                   \<and> detailedFileChanges (fst e) =
                     Some \<lparr>added = map extractAddedOrDeleted (addedFiles diff),
                           modified = map extractModified (modifiedFiles diff),
                           deleted = map extractAddedOrDeleted (deletedFiles diff)\<rparr>)
             \<and> (\<exists>warnings.
                   snd (loadCheckpoints a p st) =
                     fst (listRequest a p)
                     # map (\<lambda>j. ApiDiffCheckpoints (sessionId_prop p)
                                  (checkpointId (sortedCheckpoints ! (j - 1)))
                                  (checkpointId (sortedCheckpoints ! j)))
                         [1..<length sortedCheckpoints]
                     @ warnings
                   \<and> (\<forall>w \<in> set warnings. \<exists>c. w = ConsoleWarn c)))"
proof -
  let ?cs = "sort_key messageIndex raw"
  have i: "i < length ?cs" using assms(3) by simp
  have e: "enhancedCheckpoints a p ?cs ! i = enhance a p ?cs (?cs ! i) i"
    using i by (rule nth_enhancedCheckpoints)
  have requests: "fst (snd (enhancedCheckpoints a p ?cs ! i)) =
      [ApiDiffCheckpoints (sessionId_prop p) (checkpointId (?cs ! (i - 1))) (checkpointId (?cs ! i))]"
    using assms(2) by (simp add: e enhance_requests)
  have resolved: "filesChanged (fst (enhancedCheckpoints a p ?cs ! i)) =
                     Some \<lparr>added = int (length (addedFiles diff)),
                           modified = int (length (modifiedFiles diff)),
                           deleted = int (length (deletedFiles diff))\<rparr>
                \<and> detailedFileChanges (fst (enhancedCheckpoints a p ?cs ! i)) =
                     Some \<lparr>added = map extractAddedOrDeleted (addedFiles diff),
                           modified = map extractModified (modifiedFiles diff),
                           deleted = map extractAddedOrDeleted (deletedFiles diff)\<rparr>"
    if "titorDiffCheckpoints a (sessionId_prop p)
          (checkpointId (?cs ! (i - 1))) (checkpointId (?cs ! i)) = Inr diff" for diff
    unfolding e using enhance_resolved(1,2) [OF assms(2) that] by simp
  have trace: "snd (loadCheckpoints a p st) =
      fst (listRequest a p)
      # map (\<lambda>j. ApiDiffCheckpoints (sessionId_prop p)
                   (checkpointId (?cs ! (j - 1))) (checkpointId (?cs ! j))) [1..<length ?cs]
      @ concat (map (snd \<circ> snd) (enhancedCheckpoints a p ?cs))"
    by (simp add: loadCheckpoints_resolved [OF assms(1)] diff_requests_enhancedCheckpoints)
  have "\<exists>warnings.
          snd (loadCheckpoints a p st) =
            fst (listRequest a p)
            # map (\<lambda>j. ApiDiffCheckpoints (sessionId_prop p)
                   (checkpointId (?cs ! (j - 1))) (checkpointId (?cs ! j))) [1..<length ?cs]
            @ warnings
          \<and> (\<forall>w \<in> set warnings. \<exists>c. w = ConsoleWarn c)"
    using trace warnings_enhancedCheckpoints by blast
  with requests resolved show ?thesis
    unfolding Let_def by blast
qed

theorem loadCheckpoints_incremental_diff_witness:
  "snd (listRequest (example_api [c2, c0, c1]) example_props) = Inr (Some [c2, c0, c1])
   \<and> (0::nat) < 2 \<and> 2 < length [c2, c0, c1]
   \<and> sort_key messageIndex [c2, c0, c1] = [c0, c1, c2]
   \<and> example_diff ''s1'' ''c1'' ''c2''
       = Inr \<lparr>addedFiles = [JStr ''b''], modifiedFiles = [], deletedFiles = [JStr ''a'']\<rparr>
   \<and> fst (snd (enhancedCheckpoints (example_api [c2, c0, c1]) example_props [c0, c1, c2] ! 2))
       = [ApiDiffCheckpoints ''s1'' ''c1'' ''c2'']
   \<and> filesChanged (fst (enhancedCheckpoints (example_api [c2, c0, c1]) example_props [c0, c1, c2] ! 2))
       = Some \<lparr>added = 1, modified = 0, deleted = 1\<rparr>"
proof -
  have h: "snd (listRequest (example_api [c2, c0, c1]) example_props) = Inr (Some [c2, c0, c1])"
    by (simp add: listRequest_def example_api_def example_props_def)
  have s: "sort_key messageIndex [c2, c0, c1] = [c0, c1, c2]"
    by (simp add: c0_def c1_def c2_def)
  have d: "titorDiffCheckpoints (example_api [c2, c0, c1]) (sessionId_prop example_props)
             (checkpointId c1) (checkpointId c2)
           = Inr \<lparr>addedFiles = [JStr ''b''], modifiedFiles = [], deletedFiles = [JStr ''a'']\<rparr>"
    by (simp add: example_api_def example_diff_def c1_def c2_def)
  have e: "example_diff ''s1'' ''c1'' ''c2''
       = Inr \<lparr>addedFiles = [JStr ''b''], modifiedFiles = [], deletedFiles = [JStr ''a'']\<rparr>"
    by (simp add: example_diff_def)
  have ids: "sessionId_prop example_props = ''s1''" "checkpointId c1 = ''c1''" "checkpointId c2 = ''c2''"
    by (simp_all add: example_props_def c1_def c2_def)
  have n: "(0::nat) < 2" "2 < length [c2, c0, c1]"
    by simp_all
  have "fst (snd (enhancedCheckpoints (example_api [c2, c0, c1]) example_props [c0, c1, c2] ! 2))
           = [ApiDiffCheckpoints ''s1'' ''c1'' ''c2'']
        \<and> filesChanged (fst (enhancedCheckpoints (example_api [c2, c0, c1]) example_props [c0, c1, c2] ! 2))
           = Some \<lparr>added = 1, modified = 0, deleted = 1\<rparr>"
    using loadCheckpoints_incremental_diff
      [of "example_api [c2, c0, c1]" example_props "[c2, c0, c1]" 2 initial_state,
       OF h n, unfolded Let_def s] d
    by (simp add: ids)
  with h n s e show ?thesis by blast
qed

lemma hasFileChanges_filesChanged: "hasFileChanges c \<Longrightarrow> filesChanged c \<noteq> None"
  by (cases "filesChanged c") (simp_all add: hasFileChanges_def)

lemma warning_in_trace:
  assumes "snd (listRequest a p) = Inr result" and "i < length cs"
    and "cs = sort_key messageIndex (case result of None \<Rightarrow> [] | Some r \<Rightarrow> r)"
    and "w \<in> set (snd (snd (enhance a p cs (cs ! i) i)))"
  shows "w \<in> set (snd (loadCheckpoints a p st))"
proof -
  have "enhancedCheckpoints a p cs ! i \<in> set (enhancedCheckpoints a p cs)"
    using assms(2) by (simp add: length_enhancedCheckpoints)
  then have "w \<in> set (concat (map (snd \<circ> snd) (enhancedCheckpoints a p cs)))"
    using assms(2,4) by (auto simp add: nth_enhancedCheckpoints)
  then show ?thesis
    by (simp add: loadCheckpoints_resolved [OF assms(1)] assms(3))
qed

text \<open>
  Claim C3. After a load whose list request resolves, the published checkpoints are the
  enhanced checkpoints whose total change count is greater than zero, in their order, and
  no error is set. Every checkpoint of the batch is enhanced. A checkpoint whose diff
  request was rejected has no \<^verbatim>\<open>filesChanged\<close>, is not published, and a warning naming it
  is logged.
\<close>

theorem loadCheckpoints_publishes_changed_only:
  assumes "snd (listRequest a p) = Inr result"
  shows "(let sortedCheckpoints =
                sort_key messageIndex (case result of None \<Rightarrow> [] | Some r \<Rightarrow> r);
              enhanced = map fst (enhancedCheckpoints a p sortedCheckpoints);
              st' = fst (loadCheckpoints a p st);
              events = snd (loadCheckpoints a p st)
          in checkpoints st' = filter (\<lambda>c. 0 < totalChanges c) enhanced
             \<and> error st' = None
             \<and> length enhanced = length sortedCheckpoints
             \<and> (\<forall>i. 0 < i \<and> i < length sortedCheckpoints
                      \<and> isl (titorDiffCheckpoints a (sessionId_prop p)
                                (checkpointId (sortedCheckpoints ! (i - 1)))
                                (checkpointId (sortedCheckpoints ! i))) \<longrightarrow>
                    filesChanged (enhanced ! i) = None
                    \<and> enhanced ! i \<notin> set (checkpoints st')
                    \<and> ConsoleWarn (checkpointId (sortedCheckpoints ! i)) \<in> set events))"
proof -
  let ?cs = "sort_key messageIndex (case result of None \<Rightarrow> [] | Some r \<Rightarrow> r)"
  let ?enhanced = "map fst (enhancedCheckpoints a p ?cs)"
  let ?st' = "fst (loadCheckpoints a p st)"
  have published: "checkpoints ?st' = filter hasFileChanges ?enhanced"
    by (simp add: loadCheckpoints_resolved [OF assms])
  then have total: "checkpoints ?st' = filter (\<lambda>c. 0 < totalChanges c) ?enhanced"
    by (simp only: filter_enhanced_total)
  have err: "error ?st' = None"
    by (simp add: loadCheckpoints_resolved [OF assms])
  have len: "length ?enhanced = length ?cs"
    by (simp add: length_enhancedCheckpoints)
  have failed: "filesChanged (?enhanced ! i) = None
                \<and> ?enhanced ! i \<notin> set (checkpoints ?st')
                \<and> ConsoleWarn (checkpointId (?cs ! i)) \<in> set (snd (loadCheckpoints a p st))"
    if i: "0 < i" "i < length ?cs"
      and rej: "isl (titorDiffCheckpoints a (sessionId_prop p)
                  (checkpointId (?cs ! (i - 1))) (checkpointId (?cs ! i)))" for i
  proof -
    from rej obtain err where r: "titorDiffCheckpoints a (sessionId_prop p)
                  (checkpointId (?cs ! (i - 1))) (checkpointId (?cs ! i)) = Inl err"
      by (auto simp add: isl_def)
    have nth: "?enhanced ! i = fst (enhance a p ?cs (?cs ! i) i)"
      using i(2) by (simp add: length_enhancedCheckpoints nth_enhancedCheckpoints)
    have none: "filesChanged (?enhanced ! i) = None"
      unfolding nth using enhance_rejected(1) [OF i(1) r] .
    have out: "?enhanced ! i \<notin> set (checkpoints ?st')"
    proof
      assume "?enhanced ! i \<in> set (checkpoints ?st')"
      then have "hasFileChanges (?enhanced ! i)"
        unfolding published by simp
      with none hasFileChanges_filesChanged show False by blast
    qed
    have "ConsoleWarn (checkpointId (?cs ! i)) \<in> set (snd (snd (enhance a p ?cs (?cs ! i) i)))"
      using enhance_rejected(3) [OF i(1) r] by simp
    then have "ConsoleWarn (checkpointId (?cs ! i)) \<in> set (snd (loadCheckpoints a p st))"
      using warning_in_trace [OF assms i(2) refl] by blast
    with none out show ?thesis by blast
  qed
  show ?thesis
    unfolding Let_def using total err len failed by blast
qed

theorem loadCheckpoints_publishes_changed_only_witness:
  "snd (listRequest (example_api [c0, c1, cx, c2]) example_props) = Inr (Some [c0, c1, cx, c2])
   \<and> sort_key messageIndex [c0, c1, cx, c2] = [c0, c1, cx, c2]
   \<and> (0::nat) < 2 \<and> 2 < length [c0, c1, cx, c2]
   \<and> isl (example_diff ''s1'' ''c1'' ''cx'')
   \<and> map checkpointId (checkpoints (fst (loadCheckpoints (example_api [c0, c1, cx, c2])
                                              example_props initial_state))) = [''c0'', ''c1'']
   \<and> error (fst (loadCheckpoints (example_api [c0, c1, cx, c2]) example_props initial_state)) = None
   \<and> filesChanged (map fst (enhancedCheckpoints (example_api [c0, c1, cx, c2]) example_props
                                [c0, c1, cx, c2]) ! 2) = None
   \<and> ConsoleWarn ''cx'' \<in> set (snd (loadCheckpoints (example_api [c0, c1, cx, c2])
                                         example_props initial_state))"
proof -
  let ?a = "example_api [c0, c1, cx, c2]"
  have h: "snd (listRequest ?a example_props) = Inr (Some [c0, c1, cx, c2])"
    by (simp add: listRequest_def example_api_def example_props_def)
  have s: "sort_key messageIndex (case Some [c0, c1, cx, c2] of None \<Rightarrow> [] | Some r \<Rightarrow> r)
             = [c0, c1, cx, c2]"
    by (simp add: c0_def c1_def c2_def cx_def)
  have s': "sort_key messageIndex [c0, c1, cx, c2] = [c0, c1, cx, c2]"
    using s by simp
  have n: "(0::nat) < 2" "2 < length [c0, c1, cx, c2]"
    by simp_all
  have r: "isl (example_diff ''s1'' ''c1'' ''cx'')"
    by (simp add: example_diff_def)
  have r': "isl (titorDiffCheckpoints ?a (sessionId_prop example_props)
                   (checkpointId ([c0, c1, cx, c2] ! (2 - 1))) (checkpointId ([c0, c1, cx, c2] ! 2)))"
    by (simp add: example_api_def example_diff_def example_props_def c1_def cx_def)
  have cx: "checkpointId ([c0, c1, cx, c2] ! 2) = ''cx''"
    by (simp add: cx_def)
  note t = loadCheckpoints_publishes_changed_only
             [of ?a example_props "Some [c0, c1, cx, c2]" initial_state, OF h,
              unfolded Let_def s]
  have failed: "filesChanged (map fst (enhancedCheckpoints ?a example_props [c0, c1, cx, c2]) ! 2) = None
      \<and> ConsoleWarn ''cx'' \<in> set (snd (loadCheckpoints ?a example_props initial_state))"
    using t n r' cx by metis
  have err: "error (fst (loadCheckpoints ?a example_props initial_state)) = None"
    using t by blast
  have ids: "map checkpointId (checkpoints (fst (loadCheckpoints ?a example_props initial_state)))
          = [''c0'', ''c1'']"
    by code_simp
  from h s' n r ids err failed show ?thesis by blast
qed

text \<open>
  Claim C5. The checkpoint at position 0 of the sorted sequence gets
  \<^verbatim>\<open>filesChanged = {added: fileCount, modified: 0, deleted: 0}\<close> and three empty
  detailed lists, and sends no diff request. A load that lists a single checkpoint sends
  the list request only and publishes that checkpoint, when its \<^verbatim>\<open>fileCount\<close> is
  positive, with \<^verbatim>\<open>added = fileCount\<close>.
\<close>

theorem first_checkpoint_baseline:
  assumes "raw \<noteq> []"
  shows "(let sortedCheckpoints = sort_key messageIndex raw;
              e = enhancedCheckpoints a p sortedCheckpoints ! 0
          in filesChanged (fst e)
               = Some \<lparr>added = fileCount (sortedCheckpoints ! 0), modified = 0, deleted = 0\<rparr>
             \<and> detailedFileChanges (fst e) = Some \<lparr>added = [], modified = [], deleted = []\<rparr>
             \<and> fst (snd e) = [] \<and> snd (snd e) = [])
         \<and> (\<forall>c. raw = [c] \<and> snd (listRequest a p) = Inr (Some raw) \<longrightarrow>
               snd (loadCheckpoints a p st) = [fst (listRequest a p)]
               \<and> map filesChanged (checkpoints (fst (loadCheckpoints a p st)))
                   = (if 0 < fileCount c
                      then [Some \<lparr>added = fileCount c, modified = 0, deleted = 0\<rparr>] else []))"
proof -
  let ?cs = "sort_key messageIndex raw"
  have "0 < length ?cs" using assms by simp
  then have e: "enhancedCheckpoints a p ?cs ! 0 = enhance a p ?cs (?cs ! 0) 0"
    by (rule nth_enhancedCheckpoints)
  have first: "filesChanged (fst (enhancedCheckpoints a p ?cs ! 0))
               = Some \<lparr>added = fileCount (?cs ! 0), modified = 0, deleted = 0\<rparr>
             \<and> detailedFileChanges (fst (enhancedCheckpoints a p ?cs ! 0))
               = Some \<lparr>added = [], modified = [], deleted = []\<rparr>
             \<and> fst (snd (enhancedCheckpoints a p ?cs ! 0)) = []
             \<and> snd (snd (enhancedCheckpoints a p ?cs ! 0)) = []"
    unfolding e by (simp add: enhance_first)
  have single: "snd (loadCheckpoints a p st) = [fst (listRequest a p)]
               \<and> map filesChanged (checkpoints (fst (loadCheckpoints a p st)))
                   = (if 0 < fileCount c
                      then [Some \<lparr>added = fileCount c, modified = 0, deleted = 0\<rparr>] else [])"
    if "raw = [c]" and h: "snd (listRequest a p) = Inr (Some raw)" for c
    by (simp add: loadCheckpoints_resolved [OF h] that(1) enhancedCheckpoints_def enhance_first
        hasFileChanges_def)
  show ?thesis
    unfolding Let_def using first single by blast
qed

theorem first_checkpoint_baseline_witness:
  "[c0] \<noteq> []
   \<and> snd (listRequest (example_api [c0]) example_props) = Inr (Some [c0])
   \<and> fileCount c0 = 5
   \<and> snd (loadCheckpoints (example_api [c0]) example_props initial_state)
       = [ApiListCheckpoints ''s1'']
   \<and> map filesChanged (checkpoints (fst (loadCheckpoints (example_api [c0]) example_props initial_state)))
       = [Some \<lparr>added = 5, modified = 0, deleted = 0\<rparr>]
   \<and> detailedFileChanges (fst (enhancedCheckpoints (example_api [c0]) example_props
                                  (sort_key messageIndex [c0]) ! 0))
       = Some \<lparr>added = [], modified = [], deleted = []\<rparr>"
proof -
  have ne: "[c0] \<noteq> []" by simp
  have h: "snd (listRequest (example_api [c0]) example_props) = Inr (Some [c0])"
    and q: "fst (listRequest (example_api [c0]) example_props) = ApiListCheckpoints ''s1''"
    by (simp_all add: listRequest_def example_api_def example_props_def)
  have f: "fileCount c0 = 5" by (simp add: c0_def)
  note t = first_checkpoint_baseline
             [of "[c0]" "example_api [c0]" example_props initial_state, OF ne, unfolded Let_def]
  have "snd (loadCheckpoints (example_api [c0]) example_props initial_state)
          = [ApiListCheckpoints ''s1'']
        \<and> map filesChanged (checkpoints (fst (loadCheckpoints (example_api [c0]) example_props initial_state)))
          = [Some \<lparr>added = 5, modified = 0, deleted = 0\<rparr>]"
    using t h q f by simp
  moreover have "detailedFileChanges (fst (enhancedCheckpoints (example_api [c0]) example_props
                                  (sort_key messageIndex [c0]) ! 0))
       = Some \<lparr>added = [], modified = [], deleted = []\<rparr>"
    using t by blast
  ultimately show ?thesis using ne h f by blast
qed

lemma distinct_map_sort_key:
  "distinct (map f (sort_key g xs)) \<longleftrightarrow> distinct (map f xs)"
  by (simp add: distinct_map)

text \<open>
  Claim C6, as amended. After a load whose list request resolves, the published sequence
  is ascending by \<^verbatim>\<open>messageIndex\<close>, ties allowed; it is strictly ascending when the
  \<^verbatim>\<open>messageIndex\<close> values of the raw sequence are pairwise distinct.
\<close>

theorem loadCheckpoints_ascending:
  assumes "snd (listRequest a p) = Inr result"
  shows "sorted (map messageIndex (checkpoints (fst (loadCheckpoints a p st))))
       \<and> (distinct (map messageIndex (case result of None \<Rightarrow> [] | Some r \<Rightarrow> r)) \<longrightarrow>
            sorted_wrt (<) (map messageIndex (checkpoints (fst (loadCheckpoints a p st)))))"
proof -
  let ?raw = "case result of None \<Rightarrow> [] | Some r \<Rightarrow> r"
  let ?cs = "sort_key messageIndex ?raw"
  let ?enhanced = "map fst (enhancedCheckpoints a p ?cs)"
  have published: "checkpoints (fst (loadCheckpoints a p st)) = filter hasFileChanges ?enhanced"
    by (simp add: loadCheckpoints_resolved [OF assms])
  have keys: "map messageIndex ?enhanced = map messageIndex ?cs"
    by (rule messageIndex_enhancedCheckpoints)
  have "sorted (map messageIndex ?enhanced)"
    unfolding keys by (rule sorted_sort_key)
  then have asc: "sorted (map messageIndex (filter hasFileChanges ?enhanced))"
    by (rule sorted_filter)
  have strict: "sorted_wrt (<) (map messageIndex (filter hasFileChanges ?enhanced))"
    if "distinct (map messageIndex ?raw)"
  proof -
    from that have "distinct (map messageIndex ?enhanced)"
      unfolding keys by (simp only: distinct_map_sort_key)
    then have "distinct (map messageIndex (filter hasFileChanges ?enhanced))"
      by (rule distinct_map_filter)
    with asc show ?thesis
      by (simp only: strict_sorted_iff)
  qed
  show ?thesis
    unfolding published using asc strict by blast
qed

theorem loadCheckpoints_ascending_witness:
  "snd (listRequest (example_api [c2, c0, c1]) example_props) = Inr (Some [c2, c0, c1])
   \<and> distinct (map messageIndex [c2, c0, c1])
   \<and> map messageIndex (checkpoints (fst (loadCheckpoints (example_api [c2, c0, c1])
                                              example_props initial_state))) = [0, 2, 4]
   \<and> sorted_wrt (<) (map messageIndex (checkpoints (fst (loadCheckpoints (example_api [c2, c0, c1])
                                              example_props initial_state))))"
proof -
  have h: "snd (listRequest (example_api [c2, c0, c1]) example_props) = Inr (Some [c2, c0, c1])"
    by (simp add: listRequest_def example_api_def example_props_def)
  have d: "distinct (map messageIndex [c2, c0, c1])"
    by (simp add: c0_def c1_def c2_def)
  have v: "map messageIndex (checkpoints (fst (loadCheckpoints (example_api [c2, c0, c1])
                                              example_props initial_state))) = [0, 2, 4]"
    by code_simp
  show ?thesis
    using loadCheckpoints_ascending [OF h, of initial_state] h d v by simp
qed

text \<open>
  The claim as stated fails: two raw checkpoints with the same \<^verbatim>\<open>messageIndex\<close>, both
  with file changes, are both published, and the sequence is not strictly ascending.
\<close>

theorem loadCheckpoints_ties_not_strict:
  "map messageIndex [tie0, tie1] = [3, 3]
   \<and> map messageIndex (checkpoints (fst (loadCheckpoints (example_api [tie0, tie1])
          (example_props\<lparr>showAllSessions := True\<rparr>) initial_state))) = [3, 3]
   \<and> \<not> sorted_wrt (<) (map messageIndex (checkpoints (fst (loadCheckpoints
          (example_api [tie0, tie1]) (example_props\<lparr>showAllSessions := True\<rparr>) initial_state))))"
proof -
  have v: "map messageIndex (checkpoints (fst (loadCheckpoints (example_api [tie0, tie1])
          (example_props\<lparr>showAllSessions := True\<rparr>) initial_state))) = [3, 3]"
    by code_simp
  show ?thesis
    unfolding v by (simp add: tie0_def tie1_def)
qed


section \<open>Properties of forking a checkpoint\<close>

lemma trim_Nil_iff: "trim s = [] \<longleftrightarrow> (\<forall>c \<in> set s. isWhiteSpace c)"
proof -
  have "(\<forall>c \<in> set (dropWhile isWhiteSpace s). isWhiteSpace c) \<longleftrightarrow> dropWhile isWhiteSpace s = []"
  proof
    assume all: "\<forall>c \<in> set (dropWhile isWhiteSpace s). isWhiteSpace c"
    show "dropWhile isWhiteSpace s = []"
    proof (rule ccontr)
      assume ne: "dropWhile isWhiteSpace s \<noteq> []"
      then have "\<not> isWhiteSpace (hd (dropWhile isWhiteSpace s))" by (rule hd_dropWhile)
      moreover have "hd (dropWhile isWhiteSpace s) \<in> set (dropWhile isWhiteSpace s)"
        using ne by (rule hd_in_set)
      ultimately show False using all by blast
    qed
  next
    assume "dropWhile isWhiteSpace s = []"
    then show "\<forall>c \<in> set (dropWhile isWhiteSpace s). isWhiteSpace c"
      by (simp del: dropWhile_eq_Nil_conv)
  qed
  then have inner: "(\<forall>c \<in> set (dropWhile isWhiteSpace s). isWhiteSpace c)
                      \<longleftrightarrow> (\<forall>c \<in> set s. isWhiteSpace c)"
    by simp
  have "trim s = [] \<longleftrightarrow> (\<forall>c \<in> set (dropWhile isWhiteSpace s). isWhiteSpace c)"
    by (simp add: trim_def)
  with inner show ?thesis by blast
qed

lemma listRequest_not_fork:
  "fst (listRequest a p) \<noteq> ApiForkCheckpoint s c d"
  "ApiForkCheckpoint s c d \<noteq> fst (listRequest a p)"
  by (simp_all add: listRequest_def)

lemma loadCheckpoints_no_fork: "ApiForkCheckpoint s c d \<notin> set (snd (loadCheckpoints a p st))"
proof (cases "snd (listRequest a p)")
  case (Inl err)
  then show ?thesis
    by (simp add: loadCheckpoints_rejected listRequest_not_fork)
next
  case (Inr result)
  have "ApiForkCheckpoint s c d \<notin> set (concat (map (snd \<circ> snd) (enhancedCheckpoints a p cs)))" for cs
    using warnings_enhancedCheckpoints [of "ApiForkCheckpoint s c d" a p cs] by blast
  then show ?thesis
    by (auto simp add: loadCheckpoints_resolved [OF Inr] listRequest_not_fork
        diff_requests_enhancedCheckpoints)
qed

lemma handleForkCheckpoint_blocked:
  assumes "selectedCheckpoint st = None \<or> selectedCheckpoint st = Some []
           \<or> (\<forall>ch \<in> set (forkMessage st). isWhiteSpace ch)"
  shows "handleForkCheckpoint a p st = (st, [])"
  using assms by (auto simp add: handleForkCheckpoint_def trim_Nil_iff split: option.splits)

lemma handleForkCheckpoint_events:
  assumes "selectedCheckpoint st = Some c" and "c \<noteq> []"
    and "\<not> (\<forall>ch \<in> set (forkMessage st). isWhiteSpace ch)"
  shows "snd (handleForkCheckpoint a p st) =
     (case titorForkCheckpoint a (sessionId_prop p) c (forkMessage st) of
        Inl err \<Rightarrow>
          [ApiForkCheckpoint (sessionId_prop p) c (forkMessage st),
           ConsoleError ''Failed to fork checkpoint:'']
      | Inr forkedCheckpointId \<Rightarrow>
          ApiForkCheckpoint (sessionId_prop p) c (forkMessage st)
          # snd (loadCheckpoints a p (st\<lparr>isRestoring := True, error := None\<rparr>))
          @ (if onForkCheckpoint p
             then [OnForkCheckpoint forkedCheckpointId (forkMessage st)] else []))"
  using assms
  by (auto simp add: handleForkCheckpoint_def trim_Nil_iff Let_def case_prod_beta split: sum.splits)

text \<open>
  Claim C8. \<^verbatim>\<open>handleForkCheckpoint\<close> returns at once, with the state unchanged and no
  request sent, when no checkpoint is selected or the description is empty or white
  space only. It sends a fork request if and only if a checkpoint is selected and the
  description has a character that is not white space; then it sends exactly one, for
  the selected checkpoint with the description as typed, and when that request resolves
  and the callback was passed, the last thing it does is to call \<^verbatim>\<open>onForkCheckpoint\<close>
  with the new checkpoint id and the description.
\<close>

theorem handleForkCheckpoint_requires_description:
  "(selectedCheckpoint st = None \<or> selectedCheckpoint st = Some []
      \<or> (\<forall>ch \<in> set (forkMessage st). isWhiteSpace ch) \<longrightarrow>
        handleForkCheckpoint a p st = (st, []))
   \<and> ((\<exists>s c d. ApiForkCheckpoint s c d \<in> set (snd (handleForkCheckpoint a p st))) \<longleftrightarrow>
        (\<exists>c. selectedCheckpoint st = Some c \<and> c \<noteq> [])
        \<and> (\<exists>ch \<in> set (forkMessage st). \<not> isWhiteSpace ch))
   \<and> (\<forall>c. selectedCheckpoint st = Some c \<and> c \<noteq> []
            \<and> (\<exists>ch \<in> set (forkMessage st). \<not> isWhiteSpace ch) \<longrightarrow>
          filter (\<lambda>e. \<exists>s c d. e = ApiForkCheckpoint s c d) (snd (handleForkCheckpoint a p st))
            = [ApiForkCheckpoint (sessionId_prop p) c (forkMessage st)]
          \<and> (\<forall>forkedCheckpointId.
                titorForkCheckpoint a (sessionId_prop p) c (forkMessage st) = Inr forkedCheckpointId
                \<and> onForkCheckpoint p \<longrightarrow>
                  last (snd (handleForkCheckpoint a p st))
                    = OnForkCheckpoint forkedCheckpointId (forkMessage st)))"
proof (intro conjI)
  show "selectedCheckpoint st = None \<or> selectedCheckpoint st = Some []
      \<or> (\<forall>ch \<in> set (forkMessage st). isWhiteSpace ch) \<longrightarrow>
        handleForkCheckpoint a p st = (st, [])"
    using handleForkCheckpoint_blocked by blast
next
  have issued: "filter (\<lambda>e. \<exists>s c d. e = ApiForkCheckpoint s c d) (snd (handleForkCheckpoint a p st))
            = [ApiForkCheckpoint (sessionId_prop p) c (forkMessage st)]"
    if "selectedCheckpoint st = Some c" "c \<noteq> []"
       "\<exists>ch \<in> set (forkMessage st). \<not> isWhiteSpace ch" for c
  proof -
    have no: "filter (\<lambda>e. \<exists>s c d. e = ApiForkCheckpoint s c d)
                (snd (loadCheckpoints a p st')) = []" for st'
      using loadCheckpoints_no_fork [of _ _ _ a p st'] by (auto simp add: filter_empty_conv)
    show ?thesis
      using that
      by (simp add: handleForkCheckpoint_events no split: sum.splits)
  qed
  show "(\<exists>s c d. ApiForkCheckpoint s c d \<in> set (snd (handleForkCheckpoint a p st))) \<longleftrightarrow>
        (\<exists>c. selectedCheckpoint st = Some c \<and> c \<noteq> [])
        \<and> (\<exists>ch \<in> set (forkMessage st). \<not> isWhiteSpace ch)"
  proof
    assume "\<exists>s c d. ApiForkCheckpoint s c d \<in> set (snd (handleForkCheckpoint a p st))"
    then have ne: "snd (handleForkCheckpoint a p st) \<noteq> []" by auto
    show "(\<exists>c. selectedCheckpoint st = Some c \<and> c \<noteq> [])
        \<and> (\<exists>ch \<in> set (forkMessage st). \<not> isWhiteSpace ch)"
    proof (rule ccontr)
      assume "\<not> ((\<exists>c. selectedCheckpoint st = Some c \<and> c \<noteq> [])
        \<and> (\<exists>ch \<in> set (forkMessage st). \<not> isWhiteSpace ch))"
      then have "selectedCheckpoint st = None \<or> selectedCheckpoint st = Some []
           \<or> (\<forall>ch \<in> set (forkMessage st). isWhiteSpace ch)"
        by (cases "selectedCheckpoint st") auto
      then have "handleForkCheckpoint a p st = (st, [])"
        by (rule handleForkCheckpoint_blocked)
      with ne show False by simp
    qed
  next
    assume "(\<exists>c. selectedCheckpoint st = Some c \<and> c \<noteq> [])
        \<and> (\<exists>ch \<in> set (forkMessage st). \<not> isWhiteSpace ch)"
    then obtain c where c: "selectedCheckpoint st = Some c" "c \<noteq> []"
      "\<exists>ch \<in> set (forkMessage st). \<not> isWhiteSpace ch" by blast
    have "ApiForkCheckpoint (sessionId_prop p) c (forkMessage st)
            \<in> set (filter (\<lambda>e. \<exists>s c d. e = ApiForkCheckpoint s c d) (snd (handleForkCheckpoint a p st)))"
      unfolding issued [OF c] by simp
    then show "\<exists>s c d. ApiForkCheckpoint s c d \<in> set (snd (handleForkCheckpoint a p st))"
      by auto
  qed
  show "\<forall>c. selectedCheckpoint st = Some c \<and> c \<noteq> []
            \<and> (\<exists>ch \<in> set (forkMessage st). \<not> isWhiteSpace ch) \<longrightarrow>
          filter (\<lambda>e. \<exists>s c d. e = ApiForkCheckpoint s c d) (snd (handleForkCheckpoint a p st))
            = [ApiForkCheckpoint (sessionId_prop p) c (forkMessage st)]
          \<and> (\<forall>forkedCheckpointId.
                titorForkCheckpoint a (sessionId_prop p) c (forkMessage st) = Inr forkedCheckpointId
                \<and> onForkCheckpoint p \<longrightarrow>
                  last (snd (handleForkCheckpoint a p st))
                    = OnForkCheckpoint forkedCheckpointId (forkMessage st))"
  proof (intro allI impI conjI)
    fix c
    assume h: "selectedCheckpoint st = Some c \<and> c \<noteq> []
            \<and> (\<exists>ch \<in> set (forkMessage st). \<not> isWhiteSpace ch)"
    then show "filter (\<lambda>e. \<exists>s c d. e = ApiForkCheckpoint s c d) (snd (handleForkCheckpoint a p st))
            = [ApiForkCheckpoint (sessionId_prop p) c (forkMessage st)]"
      using issued by blast
    fix forkedCheckpointId
    assume "titorForkCheckpoint a (sessionId_prop p) c (forkMessage st) = Inr forkedCheckpointId
                \<and> onForkCheckpoint p"
    then show "last (snd (handleForkCheckpoint a p st))
                    = OnForkCheckpoint forkedCheckpointId (forkMessage st)"
      using h by (simp add: handleForkCheckpoint_events)
  qed
qed

theorem handleForkCheckpoint_requires_description_witness:
  "list_all isWhiteSpace (forkMessage (fork_state ''  ''))
   \<and> handleForkCheckpoint (example_api [c2, c0, c1]) example_props (fork_state ''  '')
       = (fork_state ''  '', [])
   \<and> selectedCheckpoint (fork_state '' try '') = Some ''c1'' \<and> ''c1'' \<noteq> []
   \<and> (\<exists>ch \<in> set (forkMessage (fork_state '' try '')). \<not> isWhiteSpace ch)
   \<and> titorForkCheckpoint (example_api [c2, c0, c1]) (sessionId_prop example_props) ''c1''
         (forkMessage (fork_state '' try '')) = Inr ''fork-of-c1''
   \<and> onForkCheckpoint example_props
   \<and> filter (\<lambda>e. \<exists>s c d. e = ApiForkCheckpoint s c d)
         (snd (handleForkCheckpoint (example_api [c2, c0, c1]) example_props (fork_state '' try '')))
       = [ApiForkCheckpoint ''s1'' ''c1'' '' try '']
   \<and> last (snd (handleForkCheckpoint (example_api [c2, c0, c1]) example_props
                    (fork_state '' try '')))
       = OnForkCheckpoint ''fork-of-c1'' '' try ''"
proof -
  let ?a = "example_api [c2, c0, c1]"
  have blank: "\<forall>ch \<in> set (forkMessage (fork_state ''  '')). isWhiteSpace ch"
    and blank': "list_all isWhiteSpace (forkMessage (fork_state ''  ''))"
    by (simp_all add: fork_state_def isWhiteSpace_def)
  have sel: "selectedCheckpoint (fork_state '' try '') = Some ''c1''" and ne: "''c1'' \<noteq> []"
    and msg: "forkMessage (fork_state '' try '') = '' try ''"
    and sid: "sessionId_prop example_props = ''s1''"
    and cb: "onForkCheckpoint example_props"
    by (simp_all add: fork_state_def example_props_def)
  have typed: "\<exists>ch \<in> set (forkMessage (fork_state '' try '')). \<not> isWhiteSpace ch"
    by (simp add: fork_state_def isWhiteSpace_def)
  have api: "titorForkCheckpoint ?a (sessionId_prop example_props) ''c1''
               (forkMessage (fork_state '' try '')) = Inr ''fork-of-c1''"
    by (simp add: example_api_def)
  have blocked: "handleForkCheckpoint ?a example_props (fork_state ''  '') = (fork_state ''  '', [])"
    using handleForkCheckpoint_requires_description [of "fork_state ''  ''" ?a example_props] blank
    by blast
  have issued: "filter (\<lambda>e. \<exists>s c d. e = ApiForkCheckpoint s c d)
         (snd (handleForkCheckpoint ?a example_props (fork_state '' try '')))
       = [ApiForkCheckpoint (sessionId_prop example_props) ''c1'' (forkMessage (fork_state '' try ''))]
     \<and> last (snd (handleForkCheckpoint ?a example_props (fork_state '' try '')))
       = OnForkCheckpoint ''fork-of-c1'' (forkMessage (fork_state '' try ''))"
    using handleForkCheckpoint_requires_description [of "fork_state '' try ''" ?a example_props]
      sel ne typed api cb
    by blast
  show ?thesis
    using blank' blocked sel ne typed api cb issued [unfolded msg sid] by blast
qed

end
